theory Spec2Isabelle
  imports Main "HOL-Library.Word" "HOL-Library.AList"
begin

section \<open>Strings\<close>

text \<open>
  A JavaScript string is a sequence of UTF-16 code units; \<open>length\<close>, \<open>substring\<close>,
  \<open>trim\<close> and regular expressions without the \<open>u\<close> flag all work on code units.
  ASCII literals of the source are written \<open>js ''...''\<close>, everything else as explicit
  code units.
\<close>

type_synonym jsstring = "16 word list"

definition js :: "string \<Rightarrow> jsstring" where
  "js s = map of_char s"

text \<open>\<open>String(n)\<close> for an integer \<open>n\<close>: decimal digits, with a minus sign below zero.\<close>

fun showNat :: "nat \<Rightarrow> jsstring" where
  "showNat n = (if n < 10 then [of_nat (48 + n)] else showNat (n div 10) @ [of_nat (48 + n mod 10)])"

definition showInt :: "int \<Rightarrow> jsstring" where
  "showInt i = (if i < 0 then 0x2D # showNat (nat (- i)) else showNat (nat i))"

text \<open>
  The characters matched by \<open>\s\<close> and stripped by \<open>String.prototype.trim\<close>: ECMAScript's
  WhiteSpace (TAB, VT, FF, SP, NBSP, ZWNBSP and the Unicode space separators) and
  LineTerminator (LF, CR, LS, PS).
\<close>

definition isWhiteSpace :: "16 word \<Rightarrow> bool" where
  "isWhiteSpace c \<longleftrightarrow>
     c = 0x09 \<or> c = 0x0A \<or> c = 0x0B \<or> c = 0x0C \<or> c = 0x0D \<or> c = 0x20 \<or> c = 0xA0 \<or>
     c = 0x1680 \<or> (0x2000 \<le> c \<and> c \<le> 0x200A) \<or> c = 0x2028 \<or> c = 0x2029 \<or>
     c = 0x202F \<or> c = 0x205F \<or> c = 0x3000 \<or> c = 0xFEFF"

definition trimStart :: "jsstring \<Rightarrow> jsstring" where
  "trimStart s = dropWhile isWhiteSpace s"

definition trimEnd :: "jsstring \<Rightarrow> jsstring" where
  "trimEnd s = rev (dropWhile isWhiteSpace (rev s))"

definition trim :: "jsstring \<Rightarrow> jsstring" where
  "trim s = trimEnd (trimStart s)"

text \<open>\<open>.replace(/\r\n/g, ' ')\<close>: every CR immediately followed by LF becomes one space,
  scanning left to right.\<close>

fun replaceCRLF :: "jsstring \<Rightarrow> jsstring" where
  "replaceCRLF (c # d # cs) =
     (if c = 0x0D \<and> d = 0x0A then 0x20 # replaceCRLF cs else c # replaceCRLF (d # cs))"
| "replaceCRLF cs = cs"

text \<open>\<open>.replace(/x/g, ' ')\<close> for a single character \<open>x\<close>.\<close>

definition replaceChar :: "16 word \<Rightarrow> jsstring \<Rightarrow> jsstring" where
  "replaceChar x s = map (\<lambda>c. if c = x then 0x20 else c) s"

text \<open>\<open>.replace(/\s+/g, ' ')\<close>: every maximal run of whitespace becomes one space.\<close>

function replaceSpaces :: "jsstring \<Rightarrow> jsstring" where
  "replaceSpaces [] = []"
| "replaceSpaces (c # cs) =
     (if isWhiteSpace c then 0x20 # replaceSpaces (dropWhile isWhiteSpace cs)
      else c # replaceSpaces cs)"
  by pat_completeness auto
termination
  by (relation "measure length") (auto simp: less_Suc_eq_le length_dropWhile_le)

text \<open>\<open>.substring(0, n)\<close> for an integer \<open>n\<close>: a negative end is taken as 0, an end beyond
  the length as the length.\<close>

definition substring0 :: "int \<Rightarrow> jsstring \<Rightarrow> jsstring" where
  "substring0 n s = take (nat n) s"

section \<open>Logger\<close>

text \<open>
  Record fields carry a prefix naming their interface (\<open>cfg_\<close> for \<open>LoggerConfig\<close>,
  \<open>entry_\<close> for \<open>LogEntry\<close>, and so on), since several interfaces of the source share
  field names. Times are milliseconds since the epoch (\<open>Date.getTime()\<close>); a call
  receives the value of \<open>new Date()\<close> as its argument \<open>now\<close>. \<open>toISOString\<close> is a
  built-in of the platform and is a parameter \<open>toISO\<close> of the functions that format a time.
\<close>

datatype LogLevel = DEBUG | INFO | WARN | ERROR | SILENT

fun levelNum :: "LogLevel \<Rightarrow> nat" where
  "levelNum DEBUG = 0"
| "levelNum INFO = 1"
| "levelNum WARN = 2"
| "levelNum ERROR = 3"
| "levelNum SILENT = 4"

record LoggerConfig =
  cfg_level :: LogLevel
  cfg_enableTimestamps :: bool
  cfg_enableColors :: bool
  cfg_enableFileLogging :: bool
  cfg_logFile :: jsstring
  cfg_maxLineLength :: int
  cfg_context :: jsstring

text \<open>\<open>Partial<LoggerConfig>\<close>: a field is present or absent.\<close>

record PartialConfig =
  opt_level :: "LogLevel option"
  opt_enableTimestamps :: "bool option"
  opt_enableColors :: "bool option"
  opt_enableFileLogging :: "bool option"
  opt_logFile :: "jsstring option"
  opt_maxLineLength :: "int option"
  opt_context :: "jsstring option"

text \<open>The logger never looks inside the metadata; it is only stored in the entry.\<close>

datatype LogMetadata =
  MetaUndefined | MetaNull | MetaString jsstring | MetaNumber int | MetaBoolean bool
  | MetaError jsstring | MetaRecord "(jsstring \<times> jsstring) list"

record LogEntry =
  entry_timestamp :: int
  entry_level :: LogLevel
  entry_message :: jsstring
  entry_context :: jsstring
  entry_metadata :: LogMetadata

text \<open>
  The static state of class \<open>Logger\<close>, together with the sinks it writes to:
  \<open>console\<close> holds the lines of \<open>console.log\<close>, \<open>consoleErr\<close> those of \<open>console.warn\<close> and
  \<open>console.error\<close>, \<open>files\<close> the \<open>(path, text)\<close> pairs appended by \<open>appendFileSync\<close>.
  \<open>fs\<close> says that \<open>Logger.fs\<close> is not null. The environment: \<open>fsAvailable\<close> says that
  \<open>require('fs')\<close> succeeds, \<open>appendError path\<close> is the message of the error that
  \<open>appendFileSync\<close> throws on \<open>path\<close>, if it throws.
\<close>

record LoggerState =
  globalConfig :: LoggerConfig
  logBuffer :: "LogEntry list"
  fs :: bool
  console :: "jsstring list"
  consoleErr :: "jsstring list"
  files :: "(jsstring \<times> jsstring) list"
  fsAvailable :: bool
  appendError :: "jsstring \<Rightarrow> jsstring option"

definition defaultConfig :: LoggerConfig where
  "defaultConfig = \<lparr>cfg_level = INFO, cfg_enableTimestamps = True, cfg_enableColors = True,
     cfg_enableFileLogging = False, cfg_logFile = js ''application.log'',
     cfg_maxLineLength = 200, cfg_context = js ''APP''\<rparr>"

definition mergeConfig :: "LoggerConfig \<Rightarrow> PartialConfig \<Rightarrow> LoggerConfig" where
  "mergeConfig c p =
     \<lparr>cfg_level = (case opt_level p of None \<Rightarrow> cfg_level c | Some v \<Rightarrow> v),
      cfg_enableTimestamps =
        (case opt_enableTimestamps p of None \<Rightarrow> cfg_enableTimestamps c | Some v \<Rightarrow> v),
      cfg_enableColors = (case opt_enableColors p of None \<Rightarrow> cfg_enableColors c | Some v \<Rightarrow> v),
      cfg_enableFileLogging =
        (case opt_enableFileLogging p of None \<Rightarrow> cfg_enableFileLogging c | Some v \<Rightarrow> v),
      cfg_logFile = (case opt_logFile p of None \<Rightarrow> cfg_logFile c | Some v \<Rightarrow> v),
      cfg_maxLineLength =
        (case opt_maxLineLength p of None \<Rightarrow> cfg_maxLineLength c | Some v \<Rightarrow> v),
      cfg_context = (case opt_context p of None \<Rightarrow> cfg_context c | Some v \<Rightarrow> v)\<rparr>"

text \<open>\<open>configure\<close> merges the fields that are present into the configuration. The
  one-time initialization of the first \<open>Logger\<close> from the environment variables is a
  call of \<open>configure\<close>, or nothing when no variable is set.\<close>

definition configure :: "PartialConfig \<Rightarrow> LoggerState \<Rightarrow> LoggerState" where
  "configure config st =
     (let st1 = st\<lparr>globalConfig := mergeConfig (globalConfig st) config\<rparr>
      in if cfg_enableFileLogging (globalConfig st1) \<and> \<not> fs st1
         then (if fsAvailable st1 then st1\<lparr>fs := True\<rparr>
               else st1\<lparr>consoleErr :=
                      consoleErr st1 @ [js ''File system not available for logging'']\<rparr>)
         else st1)"

definition normalizeMessage :: "int \<Rightarrow> jsstring \<Rightarrow> jsstring" where
  \<comment> \<open>the first argument is \<open>Logger.globalConfig.maxLineLength\<close>\<close>
  "normalizeMessage maxLen message =
     substring0 maxLen
       (trim (replaceSpaces (replaceChar 0x09 (replaceChar 0x0A (replaceChar 0x0D
          (replaceCRLF (trim message)))))))"

definition getColorCode :: "LoggerConfig \<Rightarrow> LogLevel \<Rightarrow> jsstring" where
  "getColorCode cfg lvl =
     (if \<not> cfg_enableColors cfg then []
      else (case lvl of
              DEBUG \<Rightarrow> 0x1B # js ''[36m''
            | INFO \<Rightarrow> 0x1B # js ''[32m''
            | WARN \<Rightarrow> 0x1B # js ''[33m''
            | ERROR \<Rightarrow> 0x1B # js ''[31m''
            | SILENT \<Rightarrow> []))"

definition getResetCode :: "LoggerConfig \<Rightarrow> jsstring" where
  "getResetCode cfg = (if cfg_enableColors cfg then 0x1B # js ''[0m'' else [])"

fun getLevelIcon :: "LogLevel \<Rightarrow> jsstring" where
  "getLevelIcon DEBUG = [0xD83D, 0xDD0D]"
| "getLevelIcon INFO = [0x2139, 0xFE0F]"
| "getLevelIcon WARN = [0x26A0, 0xFE0F]"
| "getLevelIcon ERROR = [0x274C]"
| "getLevelIcon SILENT = []"

fun getLevelName :: "LogLevel \<Rightarrow> jsstring" where
  "getLevelName DEBUG = js ''DEBUG''"
| "getLevelName INFO = js ''INFO''"
| "getLevelName WARN = js ''WARN''"
| "getLevelName ERROR = js ''ERROR''"
| "getLevelName SILENT = js ''UNKNOWN''"

definition formatMessage :: "(int \<Rightarrow> jsstring) \<Rightarrow> LoggerConfig \<Rightarrow> LogEntry \<Rightarrow> jsstring" where
  "formatMessage toISO cfg entry =
     (let timestamp = (if cfg_enableTimestamps cfg
                       then js ''['' @ toISO (entry_timestamp entry) @ js ''] '' else []);
          icon = getLevelIcon (entry_level entry);
          colorCode = getColorCode cfg (entry_level entry);
          resetCode = getResetCode cfg;
          context = (if entry_context entry \<noteq> []
                     then js ''['' @ entry_context entry @ js ''] '' else []);
          message = entry_message entry
      in timestamp @ colorCode @ icon @ context @ message @ resetCode)"

definition writeToFile :: "(int \<Rightarrow> jsstring) \<Rightarrow> LogEntry \<Rightarrow> LoggerState \<Rightarrow> LoggerState" where
  "writeToFile toISO entry st =
     (if \<not> cfg_enableFileLogging (globalConfig st) \<or> \<not> fs st then st
      else
        (let timestamp = toISO (entry_timestamp entry);
             lvl = getLevelName (entry_level entry);
             context = (if entry_context entry \<noteq> []
                        then js ''['' @ entry_context entry @ js ''] '' else []);
             message = entry_message entry;
             logLine = timestamp @ js '' '' @ lvl @ js '' '' @ context @ message @ [0x0A];
             path = cfg_logFile (globalConfig st)
         in case appendError st path of
              None \<Rightarrow> st\<lparr>files := files st @ [(path, logLine)]\<rparr>
            | Some err \<Rightarrow>
                st\<lparr>consoleErr := consoleErr st @ [js ''Failed to write log to file: '' @ err]\<rparr>))"

text \<open>
  The core logging method. A \<open>Logger\<close> instance is its context label \<open>ctx\<close>
  (\<open>this.context\<close>).
\<close>

definition log ::
  "(int \<Rightarrow> jsstring) \<Rightarrow> int \<Rightarrow> jsstring \<Rightarrow> LogLevel \<Rightarrow> jsstring \<Rightarrow> LogMetadata \<Rightarrow>
     LoggerState \<Rightarrow> LoggerState" where
  "log toISO now ctx lvl message metadata st =
     (if levelNum lvl < levelNum (cfg_level (globalConfig st)) then st
      else
        (let entry = \<lparr>entry_timestamp = now, entry_level = lvl,
                      entry_message =
                        normalizeMessage (cfg_maxLineLength (globalConfig st)) message,
                      entry_context = ctx, entry_metadata = metadata\<rparr>;
             formattedMessage = formatMessage toISO (globalConfig st) entry;
             st1 = st\<lparr>console := console st @ [formattedMessage]\<rparr>;
             st2 = writeToFile toISO entry st1;
             st3 = st2\<lparr>logBuffer := logBuffer st2 @ [entry]\<rparr>
         in if length (logBuffer st3) > 1000 then st3\<lparr>logBuffer := tl (logBuffer st3)\<rparr>
            else st3))"

definition debug ::
  "(int \<Rightarrow> jsstring) \<Rightarrow> int \<Rightarrow> jsstring \<Rightarrow> jsstring \<Rightarrow> LogMetadata \<Rightarrow> LoggerState \<Rightarrow> LoggerState"
  where "debug toISO now ctx message metadata = log toISO now ctx DEBUG message metadata"

definition info ::
  "(int \<Rightarrow> jsstring) \<Rightarrow> int \<Rightarrow> jsstring \<Rightarrow> jsstring \<Rightarrow> LogMetadata \<Rightarrow> LoggerState \<Rightarrow> LoggerState"
  where "info toISO now ctx message metadata = log toISO now ctx INFO message metadata"

definition warn ::
  "(int \<Rightarrow> jsstring) \<Rightarrow> int \<Rightarrow> jsstring \<Rightarrow> jsstring \<Rightarrow> LogMetadata \<Rightarrow> LoggerState \<Rightarrow> LoggerState"
  where "warn toISO now ctx message metadata = log toISO now ctx WARN message metadata"

definition error ::
  "(int \<Rightarrow> jsstring) \<Rightarrow> int \<Rightarrow> jsstring \<Rightarrow> jsstring \<Rightarrow> LogMetadata \<Rightarrow> LoggerState \<Rightarrow> LoggerState"
  where "error toISO now ctx message metadata = log toISO now ctx ERROR message metadata"

datatype StepLogStatus = Started | Completed | FailedStep

fun stepLogStatusName :: "StepLogStatus \<Rightarrow> jsstring" where
  "stepLogStatusName Started = js ''started''"
| "stepLogStatusName Completed = js ''completed''"
| "stepLogStatusName FailedStep = js ''failed''"

definition step ::
  "(int \<Rightarrow> jsstring) \<Rightarrow> int \<Rightarrow> jsstring \<Rightarrow> jsstring \<Rightarrow> StepLogStatus \<Rightarrow> int option \<Rightarrow>
     LoggerState \<Rightarrow> LoggerState" where
  \<comment> \<open>\<open>duration ? ... : ''\<close>: an absent duration and the duration 0 are both falsy\<close>
  "step toISO now ctx stepName status duration st =
     (let durationStr = (case duration of
                           None \<Rightarrow> []
                         | Some d \<Rightarrow> if d = 0 then [] else js '' ('' @ showInt d @ js ''ms)'');
          icon = (case status of Started \<Rightarrow> [0xD83D, 0xDD39] | Completed \<Rightarrow> [0x2705]
                  | FailedStep \<Rightarrow> [0x274C])
      in info toISO now ctx
           (icon @ js '' Step '' @ stepLogStatusName status @ js '': '' @ stepName @ durationStr)
           MetaUndefined st)"

text \<open>\<open>xs.sliceFrom(start)\<close>: a negative \<open>start\<close> counts from the end, and \<open>-0\<close> is \<open>0\<close>.\<close>

definition sliceFrom :: "int \<Rightarrow> 'a list \<Rightarrow> 'a list" where
  "sliceFrom start xs =
     (let len = int (length xs);
          k = (if start < 0 then max (len + start) 0 else min start len)
      in drop (nat k) xs)"

definition getRecentLogs :: "int option \<Rightarrow> LoggerState \<Rightarrow> LogEntry list \<times> LoggerState" where
  \<comment> \<open>the parameter \<open>count\<close> defaults to 50\<close>
  "getRecentLogs count st =
     (let n = (case count of None \<Rightarrow> 50 | Some c \<Rightarrow> c)
      in (sliceFrom (- n) (logBuffer st), st))"

definition clearBuffer :: "LoggerState \<Rightarrow> LoggerState" where
  "clearBuffer st = st\<lparr>logBuffer := []\<rparr>"

section \<open>PlaywrightTestListener\<close>

subsection \<open>Events of the test runner\<close>

datatype TestStatus = Passed | Failed | Skipped | TimedOut | Interrupted

datatype FullStatus = RunPassed | RunFailed | RunTimedout | RunInterrupted

text \<open>A \<open>TestError\<close>; its \<open>message\<close> is optional. Of a \<open>Suite\<close> the listener reads the title
  and the child suites, of a \<open>TestCase\<close> its title and the title of its parent suite.\<close>

record TestError =
  err_message :: "jsstring option"

datatype Suite = Suite (suiteTitle: jsstring) (suites: "Suite list")

record TestCase =
  tc_parentTitle :: jsstring
  tc_title :: jsstring

record Attachment =
  att_name :: jsstring
  att_path :: "jsstring option"

record TestResult =
  res_status :: TestStatus
  res_error :: "TestError option"
  res_attachments :: "Attachment list"

record TestStep =
  ts_title :: jsstring
  ts_error :: "TestError option"

subsection \<open>State\<close>

datatype StepStatus = StepPassed | StepFailed | StepSkipped

record TestStepInfo =
  step_title :: jsstring
  step_startTime :: int
  step_endTime :: "int option"
  step_duration :: "int option"
  step_status :: StepStatus
  step_error :: "jsstring option"

record TestExecutionContext =
  test_testName :: jsstring
  test_suiteName :: jsstring
  test_startTime :: int
  test_endTime :: "int option"
  test_duration :: "int option"
  test_status :: TestStatus
  test_error :: "jsstring option"
  test_screenshots :: "jsstring list option"
  test_videos :: "jsstring list option"
  test_steps :: "TestStepInfo list option"

record SuiteExecutionContext =
  suite_suiteName :: jsstring
  suite_startTime :: int
  suite_endTime :: "int option"
  suite_duration :: "int option"
  suite_tests :: "TestExecutionContext list"
  suite_passed :: nat
  suite_failed :: nat
  suite_skipped :: nat
  suite_total :: nat

record TestListenerConfig =
  lc_outputDir :: jsstring
  lc_enableConsoleLogging :: bool
  lc_enableFileLogging :: bool
  lc_enableScreenshots :: bool
  lc_enableVideos :: bool
  lc_enableTimestamps :: bool
  lc_customReportName :: jsstring

text \<open>The calls the listener makes on its logger: \<open>this.logger.info(message, metadata)\<close>
  and \<open>this.logger.step(stepName, status, duration)\<close>.\<close>

datatype LogCall =
  CallInfo jsstring LogMetadata
  | CallStep jsstring StepLogStatus "int option"

text \<open>
  A JavaScript \<open>Map\<close> keeps its keys in insertion order, and \<open>set\<close> on a key that is
  present replaces the value where it stands: an association list with \<open>AList.update\<close>
  for \<open>set\<close> and \<open>map_of\<close> for \<open>get\<close>. A context object that the source mutates
  through a reference it got from a map is written back under its key.

  The listener never reads the state of the logger, so the calls it makes on the
  logger are recorded, in order, in \<open>loggerCalls\<close>; \<open>replay\<close> below runs them on the
  logger.
\<close>

record Listener =
  config :: TestListenerConfig
  outputDir :: jsstring
  executionContext :: "(jsstring \<times> TestExecutionContext) list"
  suiteContext :: "(jsstring \<times> SuiteExecutionContext) list"
  globalStartTime :: "int option"
  globalEndTime :: "int option"
  loggerCalls :: "LogCall list"

datatype exn = TypeError | FsError

text \<open>The file system seen by \<open>ensureOutputDirectory\<close>: whether a directory exists, and
  whether \<open>mkdirSync\<close> throws for it.\<close>

record FsEnv =
  fs_existsSync :: "jsstring \<Rightarrow> bool"
  fs_mkdirThrows :: "jsstring \<Rightarrow> bool"

definition emit :: "LogCall \<Rightarrow> Listener \<Rightarrow> Listener" where
  "emit c L = L\<lparr>loggerCalls := loggerCalls L @ [c]\<rparr>"

definition loggerInfo :: "jsstring \<Rightarrow> Listener \<Rightarrow> Listener" where
  "loggerInfo message L = emit (CallInfo message MetaUndefined) L"

fun runCall ::
  "(int \<Rightarrow> jsstring) \<Rightarrow> int \<Rightarrow> LogCall \<Rightarrow> LoggerState \<Rightarrow> LoggerState" where
  "runCall toISO now (CallInfo message metadata) st =
     info toISO now (js ''PlaywrightTestListener'') message metadata st"
| "runCall toISO now (CallStep stepName status duration) st =
     step toISO now (js ''PlaywrightTestListener'') stepName status duration st"

definition replay ::
  "(int \<Rightarrow> jsstring) \<Rightarrow> int \<Rightarrow> LogCall list \<Rightarrow> LoggerState \<Rightarrow> LoggerState" where
  "replay toISO now calls st = fold (runCall toISO now) calls st"

subsection \<open>Reporter methods\<close>

definition doubleLine :: jsstring where
  "doubleLine = replicate 63 0x2550"

definition singleLine :: jsstring where
  "singleLine = replicate 63 0x2500"

definition ensureOutputDirectory :: "FsEnv \<Rightarrow> Listener \<Rightarrow> exn + Listener" where
  "ensureOutputDirectory env L =
     (if \<not> fs_existsSync env (outputDir L)
      then (if fs_mkdirThrows env (outputDir L) then Inl FsError else Inr L)
      else Inr L)"

definition defaultListenerConfig :: TestListenerConfig where
  \<comment> \<open>the defaults of the constructor\<close>
  "defaultListenerConfig =
     \<lparr>lc_outputDir = js ''./test-results'', lc_enableConsoleLogging = True,
      lc_enableFileLogging = True, lc_enableScreenshots = True, lc_enableVideos = True,
      lc_enableTimestamps = True, lc_customReportName = js ''test-execution-report''\<rparr>"

definition newListener :: "FsEnv \<Rightarrow> TestListenerConfig \<Rightarrow> exn + Listener" where
  \<comment> \<open>the constructor; \<open>cfg\<close> is the given configuration merged over the defaults\<close>
  "newListener env cfg =
     ensureOutputDirectory env
       \<lparr>config = cfg, outputDir = lc_outputDir cfg, executionContext = [], suiteContext = [],
        globalStartTime = None, globalEndTime = None, loggerCalls = []\<rparr>"

definition getTestId :: "TestCase \<Rightarrow> jsstring" where
  "getTestId test = tc_parentTitle test @ js ''::'' @ tc_title test"

fun getStatusIcon :: "TestStatus \<Rightarrow> jsstring" where
  "getStatusIcon Passed = [0x2705]"
| "getStatusIcon Failed = [0x274C]"
| "getStatusIcon Skipped = [0x23ED, 0xFE0F]"
| "getStatusIcon TimedOut = [0x23F0]"
| "getStatusIcon Interrupted = [0xD83D, 0xDEAB]"

definition onTestSuiteStart :: "int \<Rightarrow> Suite \<Rightarrow> Listener \<Rightarrow> Listener" where
  "onTestSuiteStart now suite L =
     (let suiteName = (if suiteTitle suite \<noteq> [] then suiteTitle suite else js ''Root Suite'');
          context = \<lparr>suite_suiteName = suiteName, suite_startTime = now, suite_endTime = None,
                     suite_duration = None, suite_tests = [], suite_passed = 0,
                     suite_failed = 0, suite_skipped = 0, suite_total = 0\<rparr>;
          L1 = L\<lparr>suiteContext := AList.update suiteName context (suiteContext L)\<rparr>;
          L2 = loggerInfo singleLine L1
      in loggerInfo ([0xD83D, 0xDCCB] @ js '' Test suite started: '' @ suiteName) L2)"

fun initializeSuites :: "int \<Rightarrow> Suite \<Rightarrow> Listener \<Rightarrow> Listener"
  and initializeChildSuites :: "int \<Rightarrow> Suite list \<Rightarrow> Listener \<Rightarrow> Listener" where
  "initializeSuites now (Suite title children) L =
     initializeChildSuites now children
       (if title \<noteq> [] then onTestSuiteStart now (Suite title children) L else L)"
| "initializeChildSuites now [] L = L"
| "initializeChildSuites now (childSuite # rest) L =
     initializeChildSuites now rest (initializeSuites now childSuite L)"

definition onBegin ::
  "FsEnv \<Rightarrow> int \<Rightarrow> nat \<Rightarrow> nat \<Rightarrow> Suite \<Rightarrow> Listener \<Rightarrow> exn + Listener" where
  \<comment> \<open>\<open>projects\<close> is \<open>config.projects.length\<close>, \<open>workers\<close> is \<open>config.workers\<close>\<close>
  "onBegin env now projects workers suite L =
     (case ensureOutputDirectory env (L\<lparr>globalStartTime := Some now\<rparr>) of
        Inl e \<Rightarrow> Inl e
      | Inr L1 \<Rightarrow>
          (let L2 = loggerInfo doubleLine L1;
               L3 = loggerInfo ([0xD83D, 0xDE80] @ js '' Test execution started'') L2;
               L4 = loggerInfo ([0xD83D, 0xDCCA] @ js '' Configuration: Projects=''
                      @ showNat projects @ js '', Workers='' @ showNat workers) L3;
               L5 = loggerInfo ([0xD83D, 0xDCC1] @ js '' Output directory: '' @ outputDir L4) L4;
               L6 = loggerInfo doubleLine L5
           in Inr (initializeSuites now suite L6)))"

definition onTestStart :: "TestCase \<Rightarrow> Listener \<Rightarrow> Listener" where
  "onTestStart test L = L"

definition onTestBegin :: "int \<Rightarrow> TestCase \<Rightarrow> Listener \<Rightarrow> Listener" where
  "onTestBegin now test L =
     (let testId = getTestId test;
          context = \<lparr>test_testName = tc_title test, test_suiteName = tc_parentTitle test,
                     test_startTime = now, test_endTime = None, test_duration = None,
                     test_status = Passed, test_error = None, test_screenshots = None,
                     test_videos = None, test_steps = Some []\<rparr>;
          L1 = L\<lparr>executionContext := AList.update testId context (executionContext L)\<rparr>;
          L2 = loggerInfo ([0xD83E, 0xDDEA] @ js '' Test started: '' @ tc_parentTitle test
                 @ js '' > '' @ tc_title test) L1
      in onTestStart test L2)"

definition onStepBegin :: "int \<Rightarrow> TestCase \<Rightarrow> TestStep \<Rightarrow> Listener \<Rightarrow> exn + Listener" where
  \<comment> \<open>\<open>context.steps!.push\<close> throws a TypeError when \<open>steps\<close> is undefined\<close>
  "onStepBegin now test stp L =
     (let testId = getTestId test
      in case map_of (executionContext L) testId of
           None \<Rightarrow> Inr L
         | Some context \<Rightarrow>
             (let stepInfo = \<lparr>step_title = ts_title stp, step_startTime = now,
                               step_endTime = None, step_duration = None,
                               step_status = StepPassed, step_error = None\<rparr>
              in case test_steps context of
                   None \<Rightarrow> Inl TypeError
                 | Some steps \<Rightarrow>
                     Inr (emit (CallStep (ts_title stp) Started None)
                       (L\<lparr>executionContext :=
                            AList.update testId (context\<lparr>test_steps := Some (steps @ [stepInfo])\<rparr>)
                              (executionContext L)\<rparr>))))"

text \<open>\<open>Array.prototype.find\<close> returns the first element, from index 0 upwards, that
  satisfies the predicate; the source then mutates that element in place, so the
  model finds its index.\<close>

fun findIndex :: "('a \<Rightarrow> bool) \<Rightarrow> 'a list \<Rightarrow> nat option" where
  "findIndex P [] = None"
| "findIndex P (x # xs) =
     (if P x then Some 0 else (case findIndex P xs of None \<Rightarrow> None | Some i \<Rightarrow> Some (Suc i)))"

definition endStep :: "int \<Rightarrow> TestStep \<Rightarrow> TestStepInfo \<Rightarrow> TestStepInfo" where
  \<comment> \<open>the assignments of \<open>onStepEnd\<close> to the step it found\<close>
  "endStep now stp stepInfo =
     (let s1 = stepInfo\<lparr>step_endTime := Some now\<rparr>;
          s2 = s1\<lparr>step_duration := Some (now - step_startTime s1)\<rparr>;
          s3 = s2\<lparr>step_status := (if ts_error stp \<noteq> None then StepFailed else StepPassed)\<rparr>
      in case ts_error stp of None \<Rightarrow> s3 | Some e \<Rightarrow> s3\<lparr>step_error := err_message e\<rparr>)"

definition onStepEnd :: "int \<Rightarrow> TestCase \<Rightarrow> TestStep \<Rightarrow> Listener \<Rightarrow> Listener" where
  "onStepEnd now test stp L =
     (let testId = getTestId test
      in case map_of (executionContext L) testId of
           None \<Rightarrow> L
         | Some context \<Rightarrow>
             (case test_steps context of
                None \<Rightarrow> L
              | Some steps \<Rightarrow>
                  (case findIndex (\<lambda>s. step_title s = ts_title stp \<and> step_endTime s = None) steps of
                     None \<Rightarrow> L
                   | Some i \<Rightarrow>
                       (let stepInfo = endStep now stp (steps ! i);
                            L1 = L\<lparr>executionContext :=
                                   AList.update testId
                                     (context\<lparr>test_steps := Some (steps[i := stepInfo])\<rparr>)
                                     (executionContext L)\<rparr>;
                            status = (if step_status stepInfo = StepPassed then Completed
                                      else FailedStep)
                        in emit (CallStep (ts_title stp) status (step_duration stepInfo)) L1))))"

definition onTestFinish :: "TestCase \<Rightarrow> TestResult \<Rightarrow> Listener \<Rightarrow> Listener" where
  "onTestFinish test result L =
     (let suiteName = (if tc_parentTitle test \<noteq> [] then tc_parentTitle test
                       else js ''Root Suite'')
      in case map_of (suiteContext L) suiteName of
           None \<Rightarrow> L
         | Some context \<Rightarrow>
             (let c1 = context\<lparr>suite_total := suite_total context + 1\<rparr>;
                  c2 = (case res_status result of
                          Passed \<Rightarrow> c1\<lparr>suite_passed := suite_passed c1 + 1\<rparr>
                        | Failed \<Rightarrow> c1\<lparr>suite_failed := suite_failed c1 + 1\<rparr>
                        | TimedOut \<Rightarrow> c1\<lparr>suite_failed := suite_failed c1 + 1\<rparr>
                        | Interrupted \<Rightarrow> c1\<lparr>suite_failed := suite_failed c1 + 1\<rparr>
                        | Skipped \<Rightarrow> c1\<lparr>suite_skipped := suite_skipped c1 + 1\<rparr>)
              in L\<lparr>suiteContext := AList.update suiteName c2 (suiteContext L)\<rparr>))"

definition attachmentPaths :: "jsstring \<Rightarrow> Attachment list \<Rightarrow> jsstring list" where
  \<comment> \<open>\<open>attachments.filter(a => a.name === name).map(a => a.path || '')\<close>\<close>
  "attachmentPaths name attachments =
     map (\<lambda>a. case att_path a of None \<Rightarrow> [] | Some p \<Rightarrow> p)
       (filter (\<lambda>a. att_name a = name) attachments)"

definition onTestEnd :: "int \<Rightarrow> TestCase \<Rightarrow> TestResult \<Rightarrow> Listener \<Rightarrow> Listener" where
  "onTestEnd now test result L =
     (let testId = getTestId test;
          L1 =
            (case map_of (executionContext L) testId of
               None \<Rightarrow> L
             | Some context \<Rightarrow>
                 (let duration = now - test_startTime context;
                      c1 = context\<lparr>test_endTime := Some now, test_duration := Some duration,
                                   test_status := res_status result\<rparr>;
                      c2 = (case res_error result of
                              None \<Rightarrow> c1 | Some e \<Rightarrow> c1\<lparr>test_error := err_message e\<rparr>);
                      c3 = (if lc_enableScreenshots (config L)
                            then c2\<lparr>test_screenshots :=
                                   Some (attachmentPaths (js ''screenshot'') (res_attachments result))\<rparr>
                            else c2);
                      c4 = (if lc_enableVideos (config L)
                            then c3\<lparr>test_videos :=
                                   Some (attachmentPaths (js ''video'') (res_attachments result))\<rparr>
                            else c3);
                      La = L\<lparr>executionContext := AList.update testId c4 (executionContext L)\<rparr>;
                      statusIcon = getStatusIcon (res_status result);
                      Lb = loggerInfo (statusIcon @ js '' Test completed: '' @ tc_parentTitle test
                             @ js '' > '' @ tc_title test @ js '' ('' @ showInt duration
                             @ js ''ms)'') La
                  in case res_error result of
                       None \<Rightarrow> Lb
                     | Some e \<Rightarrow>
                         emit (CallInfo (js ''   Error: ''
                                 @ (case err_message e of None \<Rightarrow> js ''undefined'' | Some m \<Rightarrow> m))
                               (MetaString (js ''error''))) Lb))
      in onTestFinish test result L1)"

subsection \<open>End of the run\<close>

definition suiteCompletedLine :: "jsstring \<Rightarrow> jsstring" where
  "suiteCompletedLine suiteName = [0xD83D, 0xDCCB] @ js '' Suite completed: '' @ suiteName"

definition suiteTotalsLine :: "SuiteExecutionContext \<Rightarrow> int \<Rightarrow> jsstring" where
  "suiteTotalsLine context duration =
     [0xD83D, 0xDCCA] @ js '' Total: '' @ showNat (suite_total context)
     @ js '', Passed: '' @ showNat (suite_passed context)
     @ js '', Failed: '' @ showNat (suite_failed context)
     @ js '', Skipped: '' @ showNat (suite_skipped context)
     @ js '', Duration: '' @ showInt duration @ js ''ms''"

definition suiteFailedLine :: "nat \<Rightarrow> jsstring" where
  "suiteFailedLine n = [0x274C] @ js '' Suite had '' @ showNat n @ js '' failed test(s)''"

definition suiteSummary ::
  "int \<Rightarrow> jsstring \<times> SuiteExecutionContext \<Rightarrow> Listener \<Rightarrow> Listener" where
  \<comment> \<open>the body of the loop over \<open>suitesWithTests\<close>; the keys of a \<open>Map\<close> are unique, so
      \<open>context\<close> is the value the map holds under \<open>suiteName\<close>\<close>
  "suiteSummary now entry L =
     (let suiteName = fst entry; context = snd entry;
          duration = now - suite_startTime context;
          c1 = context\<lparr>suite_endTime := Some now, suite_duration := Some duration\<rparr>;
          L1 = L\<lparr>suiteContext := AList.update suiteName c1 (suiteContext L)\<rparr>;
          L2 = loggerInfo (suiteCompletedLine suiteName) L1;
          L3 = loggerInfo (suiteTotalsLine c1 duration) L2;
          L4 = (if suite_failed c1 > 0
                then emit (CallInfo (suiteFailedLine (suite_failed c1)) (MetaString (js ''warn''))) L3
                else L3)
      in loggerInfo [] L4)"

definition onTestSuiteFinish :: "int \<Rightarrow> Listener \<Rightarrow> Listener" where
  "onTestSuiteFinish now L =
     (if suiteContext L = []
      then loggerInfo ([0xD83D, 0xDCCB] @ js '' No test suites found'') L
      else
        (let suitesWithTests = filter (\<lambda>entry. suite_total (snd entry) > 0) (suiteContext L)
         in if suitesWithTests = []
            then loggerInfo ([0xD83D, 0xDCCB] @ js '' No suites with tests found'') L
            else
              (let L1 = loggerInfo ([0xD83D, 0xDCCB] @ js '' Test Suite Summary:'') L;
                   L2 = loggerInfo singleLine L1
               in fold (suiteSummary now) suitesWithTests L2)))"

fun fullStatusUpper :: "FullStatus \<Rightarrow> jsstring" where
  "fullStatusUpper RunPassed = js ''PASSED''"
| "fullStatusUpper RunFailed = js ''FAILED''"
| "fullStatusUpper RunTimedout = js ''TIMEDOUT''"
| "fullStatusUpper RunInterrupted = js ''INTERRUPTED''"

definition grandTotals ::
  "(jsstring \<times> SuiteExecutionContext) list \<Rightarrow> nat \<times> nat \<times> nat \<times> nat" where
  \<comment> \<open>the loop of \<open>onEnd\<close> over \<open>suiteContext.entries()\<close>:
      \<open>(totalTests, totalPassed, totalFailed, totalSkipped)\<close>\<close>
  "grandTotals entries =
     fold (\<lambda>entry (totalTests, totalPassed, totalFailed, totalSkipped).
             (totalTests + suite_total (snd entry), totalPassed + suite_passed (snd entry),
              totalFailed + suite_failed (snd entry), totalSkipped + suite_skipped (snd entry)))
       entries (0, 0, 0, 0)"

definition onEnd :: "int \<Rightarrow> FullStatus \<Rightarrow> Listener \<Rightarrow> exn + Listener" where
  \<comment> \<open>\<open>this.globalStartTime!.getTime()\<close> throws a TypeError when \<open>onBegin\<close> never ran\<close>
  "onEnd now result L =
     (let L0 = L\<lparr>globalEndTime := Some now\<rparr>
      in case globalStartTime L0 of
           None \<Rightarrow> Inl TypeError
         | Some start \<Rightarrow>
             (let totalDuration = now - start;
                  L1 = loggerInfo doubleLine L0;
                  L2 = loggerInfo ([0xD83C, 0xDFC1] @ js '' Test execution completed in ''
                         @ showInt totalDuration @ js ''ms'') L1;
                  L3 = loggerInfo ([0xD83D, 0xDCCA] @ js '' Overall Results: ''
                         @ fullStatusUpper result) L2;
                  (totalTests, totalPassed, totalFailed, totalSkipped) =
                    grandTotals (suiteContext L3);
                  L4 = (if totalTests > 0
                        then loggerInfo ([0xD83D, 0xDCCA] @ js '' Grand Total: ''
                               @ showNat totalTests @ js '' tests - '' @ showNat totalPassed
                               @ js '' passed, '' @ showNat totalFailed @ js '' failed, ''
                               @ showNat totalSkipped @ js '' skipped'') L3
                        else L3);
                  L5 = loggerInfo doubleLine L4
              in Inr (onTestSuiteFinish now L5)))"

section \<open>Notions used in the statements\<close>

subsection \<open>Normalized messages\<close>

text \<open>No two neighbouring characters are both the space U+0020.\<close>

fun noSpaceRun :: "jsstring \<Rightarrow> bool" where
  "noSpaceRun (a # b # cs) \<longleftrightarrow> \<not> (a = 0x20 \<and> b = 0x20) \<and> noSpaceRun (b # cs)"
| "noSpaceRun cs \<longleftrightarrow> True"

text \<open>The only whitespace character that occurs is the space U+0020.\<close>

definition onlyPlainSpaces :: "jsstring \<Rightarrow> bool" where
  "onlyPlainSpaces s \<longleftrightarrow> (\<forall>c \<in> set s. isWhiteSpace c \<longrightarrow> c = 0x20)"

text \<open>The control characters, as the class \<open>[\x00-\x1F\x7F]\<close> of the replacement that
  \<open>normalizeMessage\<close> has commented out.\<close>

definition isControl :: "16 word \<Rightarrow> bool" where
  "isControl c \<longleftrightarrow> c \<le> 0x1F \<or> c = 0x7F"

definition noEdgeSpace :: "jsstring \<Rightarrow> bool" where
  "noEdgeSpace s \<longleftrightarrow> (s \<noteq> [] \<longrightarrow> \<not> isWhiteSpace (hd s) \<and> \<not> isWhiteSpace (last s))"

definition normalForm :: "jsstring \<Rightarrow> bool" where
  "normalForm s \<longleftrightarrow> onlyPlainSpaces s \<and> noSpaceRun s \<and> noEdgeSpace s"

text \<open>The message before \<open>.substring(0, maxLineLength)\<close> cuts it.\<close>

definition collapsed :: "jsstring \<Rightarrow> jsstring" where
  "collapsed message =
     trim (replaceSpaces (replaceChar 0x09 (replaceChar 0x0A (replaceChar 0x0D
       (replaceCRLF (trim message))))))"

text \<open>Reading a decimal numeral back.\<close>

definition readNat :: "jsstring \<Rightarrow> nat" where
  "readNat s = foldl (\<lambda>a c. 10 * a + (unat c - 48)) 0 s"

subsection \<open>Sequences of log calls\<close>

text \<open>One call of \<open>log\<close>, with the time at which it runs and the context label of the
  instance it runs on; a sequence of calls runs from left to right.\<close>

record LogRequest =
  req_now :: int
  req_context :: jsstring
  req_level :: LogLevel
  req_message :: jsstring
  req_metadata :: LogMetadata

definition logRequest :: "(int \<Rightarrow> jsstring) \<Rightarrow> LogRequest \<Rightarrow> LoggerState \<Rightarrow> LoggerState" where
  "logRequest toISO r st =
     log toISO (req_now r) (req_context r) (req_level r) (req_message r) (req_metadata r) st"

definition logAll :: "(int \<Rightarrow> jsstring) \<Rightarrow> LogRequest list \<Rightarrow> LoggerState \<Rightarrow> LoggerState" where
  "logAll toISO rs st = fold (logRequest toISO) rs st"

text \<open>The call is not filtered out: its level is at least the configured minimum.\<close>

definition passesLevel :: "LoggerConfig \<Rightarrow> LogLevel \<Rightarrow> bool" where
  "passesLevel cfg lvl \<longleftrightarrow> levelNum (cfg_level cfg) \<le> levelNum lvl"

text \<open>The entry that a call stands for: its level, its context, its metadata, and its
  message normalized.\<close>

definition entryOf :: "LoggerConfig \<Rightarrow> LogRequest \<Rightarrow> LogEntry" where
  "entryOf cfg r =
     \<lparr>entry_timestamp = req_now r, entry_level = req_level r,
      entry_message = normalizeMessage (cfg_maxLineLength cfg) (req_message r),
      entry_context = req_context r, entry_metadata = req_metadata r\<rparr>"

definition lastN :: "nat \<Rightarrow> 'a list \<Rightarrow> 'a list" where
  "lastN n xs = drop (length xs - n) xs"

text \<open>The logger as the class initializer leaves it, in an environment where the file
  system is available and appending succeeds.\<close>

definition initialLogger :: LoggerState where
  "initialLogger =
     \<lparr>globalConfig = defaultConfig, logBuffer = [], fs = False, console = [], consoleErr = [],
      files = [], fsAvailable = True, appendError = (\<lambda>path. None)\<rparr>"

text \<open>The states of the logger that its operations reach from an empty buffer.\<close>

inductive reachable :: "(int \<Rightarrow> jsstring) \<Rightarrow> LoggerState \<Rightarrow> bool" for toISO where
  reach_init: "logBuffer st = [] \<Longrightarrow> reachable toISO st"
| reach_log: "reachable toISO st \<Longrightarrow> reachable toISO (log toISO now ctx lvl message metadata st)"
| reach_configure: "reachable toISO st \<Longrightarrow> reachable toISO (configure partial st)"
| reach_clearBuffer: "reachable toISO st \<Longrightarrow> reachable toISO (clearBuffer st)"
| reach_getRecentLogs: "reachable toISO st \<Longrightarrow> reachable toISO (snd (getRecentLogs count st))"

text \<open>An example call at level INFO, numbered by its time.\<close>

definition numberedRequest :: "nat \<Rightarrow> LogRequest" where
  "numberedRequest i =
     \<lparr>req_now = int i, req_context = js ''APP'', req_level = INFO, req_message = js ''m'',
      req_metadata = MetaUndefined\<rparr>"

subsection \<open>Listener\<close>

text \<open>The calls that a step of the listener adds to those made before.\<close>

definition newCalls :: "(Listener \<Rightarrow> Listener) \<Rightarrow> Listener \<Rightarrow> LogCall list" where
  "newCalls f L = drop (length (loggerCalls L)) (loggerCalls (f L))"

text \<open>The titles of a suite and of all suites below it.\<close>

fun suiteTitles :: "Suite \<Rightarrow> jsstring list" where
  "suiteTitles (Suite title children) = title # concat (map suiteTitles children)"

text \<open>The key under which \<open>onTestFinish\<close> looks for the suite of a test.\<close>

definition suiteKey :: "TestCase \<Rightarrow> jsstring" where
  "suiteKey test = (if tc_parentTitle test \<noteq> [] then tc_parentTitle test else js ''Root Suite'')"

text \<open>The counters of a suite, \<open>(total, passed, failed, skipped)\<close>, and the counters
  that the listener holds under a suite name.\<close>

definition counters :: "SuiteExecutionContext \<Rightarrow> nat \<times> nat \<times> nat \<times> nat" where
  "counters c = (suite_total c, suite_passed c, suite_failed c, suite_skipped c)"

definition suiteCounters :: "Listener \<Rightarrow> jsstring \<Rightarrow> (nat \<times> nat \<times> nat \<times> nat) option" where
  "suiteCounters L name = map_option counters (map_of (suiteContext L) name)"

text \<open>What a finished test adds to the counters of its suite.\<close>

fun countTest :: "TestStatus \<Rightarrow> nat \<times> nat \<times> nat \<times> nat \<Rightarrow> nat \<times> nat \<times> nat \<times> nat" where
  "countTest Passed (t, p, f, s) = (t + 1, p + 1, f, s)"
| "countTest Failed (t, p, f, s) = (t + 1, p, f + 1, s)"
| "countTest TimedOut (t, p, f, s) = (t + 1, p, f + 1, s)"
| "countTest Interrupted (t, p, f, s) = (t + 1, p, f + 1, s)"
| "countTest Skipped (t, p, f, s) = (t + 1, p, f, s + 1)"

text \<open>The listener as its constructor leaves it, with the default configuration.\<close>

definition freshListener :: Listener where
  "freshListener =
     \<lparr>config = defaultListenerConfig, outputDir = lc_outputDir defaultListenerConfig,
      executionContext = [], suiteContext = [], globalStartTime = None,
      globalEndTime = None, loggerCalls = []\<rparr>"

text \<open>Running the next event when the one before did not throw.\<close>

definition andThen :: "exn + 'a \<Rightarrow> ('a \<Rightarrow> exn + 'b) \<Rightarrow> exn + 'b" where
  "andThen r f = (case r of Inl e \<Rightarrow> Inl e | Inr x \<Rightarrow> f x)"

text \<open>
  The events that the runner sends between \<open>onBegin\<close> and \<open>onEnd\<close>, each with the time at
  which it arrives; a sequence of events runs from left to right and stops at the first
  event that throws.
\<close>

datatype Event =
  TestBegin int TestCase
  | StepBegin int TestCase TestStep
  | StepEnd int TestCase TestStep
  | TestEnd int TestCase TestResult

fun runEvent :: "Event \<Rightarrow> Listener \<Rightarrow> exn + Listener" where
  "runEvent (TestBegin now test) L = Inr (onTestBegin now test L)"
| "runEvent (StepBegin now test stp) L = onStepBegin now test stp L"
| "runEvent (StepEnd now test stp) L = Inr (onStepEnd now test stp L)"
| "runEvent (TestEnd now test result) L = Inr (onTestEnd now test result L)"

fun runEvents :: "Event list \<Rightarrow> Listener \<Rightarrow> exn + Listener" where
  "runEvents [] L = Inr L"
| "runEvents (e # es) L = andThen (runEvent e L) (runEvents es)"

text \<open>The step is open and carries the title.\<close>

definition openStep :: "jsstring \<Rightarrow> TestStepInfo \<Rightarrow> bool" where
  "openStep title s \<longleftrightarrow> step_title s = title \<and> step_endTime s = None"

text \<open>Example data: the test \<open>A\<close> of suite \<open>Login\<close>, and a passed step \<open>fill\<close> of it
  with its start time and, when it has ended, its end time.\<close>

definition exampleTest :: TestCase where
  "exampleTest = \<lparr>tc_parentTitle = js ''Login'', tc_title = js ''A''\<rparr>"

definition exampleStep :: "int \<Rightarrow> int option \<Rightarrow> TestStepInfo" where
  "exampleStep start end =
     \<lparr>step_title = js ''fill'', step_startTime = start, step_endTime = end,
      step_duration = map_option (\<lambda>e. e - start) end, step_status = StepPassed,
      step_error = None\<rparr>"

definition exampleContext :: "TestStepInfo list \<Rightarrow> TestExecutionContext" where
  "exampleContext steps =
     \<lparr>test_testName = js ''A'', test_suiteName = js ''Login'', test_startTime = 0,
      test_endTime = None, test_duration = None, test_status = Passed, test_error = None,
      test_screenshots = None, test_videos = None, test_steps = Some steps\<rparr>"

text \<open>An example run: the suites \<open>Login\<close>, \<open>Empty\<close> and \<open>Broken\<close> below the root; test
  \<open>A\<close> of \<open>Login\<close> passes, test \<open>B\<close> of \<open>Broken\<close> fails, \<open>Empty\<close> has no test.\<close>

definition exampleRun :: Listener where
  "exampleRun =
     onTestEnd 4 \<lparr>tc_parentTitle = js ''Broken'', tc_title = js ''B''\<rparr>
       \<lparr>res_status = Failed, res_error = None, res_attachments = []\<rparr>
       (onTestBegin 3 \<lparr>tc_parentTitle = js ''Broken'', tc_title = js ''B''\<rparr>
          (onTestEnd 2 exampleTest \<lparr>res_status = Passed, res_error = None, res_attachments = []\<rparr>
             (onTestBegin 1 exampleTest
                (initializeSuites 0
                   (Suite [] [Suite (js ''Login'') [], Suite (js ''Empty'') [],
                      Suite (js ''Broken'') []])
                   freshListener))))"

section \<open>Normalizing a message\<close>

lemma isWhiteSpace_space [simp]: "isWhiteSpace 0x20"
  by (simp add: isWhiteSpace_def)

lemma noSpaceRun_Cons: "noSpaceRun (a # cs) \<longleftrightarrow> (cs = [] \<or> (\<not> (a = 0x20 \<and> hd cs = 0x20) \<and> noSpaceRun cs))"
  by (cases cs) auto

lemma noSpaceRun_tl: "noSpaceRun (a # cs) \<Longrightarrow> noSpaceRun cs"
  by (cases cs) auto

lemma noSpaceRun_append_left: "noSpaceRun (xs @ ys) \<Longrightarrow> noSpaceRun xs"
  by (induction xs rule: noSpaceRun.induct) auto

lemma noSpaceRun_append_right: "noSpaceRun (xs @ ys) \<Longrightarrow> noSpaceRun ys"
  by (induction xs) (auto dest: noSpaceRun_tl)

lemma noSpaceRun_take: "noSpaceRun xs \<Longrightarrow> noSpaceRun (take n xs)"
  using noSpaceRun_append_left [of "take n xs" "drop n xs"] by simp

lemma noSpaceRun_dropWhile: "noSpaceRun xs \<Longrightarrow> noSpaceRun (dropWhile P xs)"
  using noSpaceRun_append_right [of "takeWhile P xs" "dropWhile P xs"] by simp

lemma trimEnd_prefix: "trimEnd s @ rev (takeWhile isWhiteSpace (rev s)) = s"
proof -
  have "rev (takeWhile isWhiteSpace (rev s) @ dropWhile isWhiteSpace (rev s)) = s"
    by simp
  then show ?thesis
    unfolding trimEnd_def rev_append .
qed

lemma noSpaceRun_trimEnd: "noSpaceRun xs \<Longrightarrow> noSpaceRun (trimEnd xs)"
  using noSpaceRun_append_left [of "trimEnd xs" "rev (takeWhile isWhiteSpace (rev xs))"]
  by (simp add: trimEnd_prefix)

lemma noSpaceRun_trim: "noSpaceRun xs \<Longrightarrow> noSpaceRun (trim xs)"
  by (simp add: trim_def trimStart_def noSpaceRun_trimEnd noSpaceRun_dropWhile)

lemma set_trimEnd: "set (trimEnd s) \<subseteq> set s"
  by (metis trimEnd_prefix set_append Un_upper1)

lemma set_trim: "set (trim s) \<subseteq> set s"
  unfolding trim_def trimStart_def
  using set_trimEnd set_dropWhileD by fastforce

lemma onlyPlainSpaces_subset: "set ys \<subseteq> set xs \<Longrightarrow> onlyPlainSpaces xs \<Longrightarrow> onlyPlainSpaces ys"
  by (auto simp: onlyPlainSpaces_def)

lemma replaceSpaces_head:
  "xs \<noteq> [] \<Longrightarrow> \<not> isWhiteSpace (hd xs) \<Longrightarrow> replaceSpaces xs \<noteq> [] \<and> hd (replaceSpaces xs) = hd xs"
  by (cases xs) auto

lemma dropWhile_head: "dropWhile P xs \<noteq> [] \<Longrightarrow> \<not> P (hd (dropWhile P xs))"
  by (simp add: hd_dropWhile)

lemma onlyPlainSpaces_replaceSpaces: "onlyPlainSpaces (replaceSpaces s)"
  by (induction s rule: replaceSpaces.induct) (auto simp: onlyPlainSpaces_def)

lemma noSpaceRun_replaceSpaces: "noSpaceRun (replaceSpaces s)"
proof (induction s rule: replaceSpaces.induct)
  case 1
  show ?case by simp
next
  case (2 c cs)
  show ?case
  proof (cases "isWhiteSpace c")
    case True
    define r where "r = dropWhile isWhiteSpace cs"
    have ih: "noSpaceRun (replaceSpaces r)" using 2 True by (simp add: r_def)
    have eq: "replaceSpaces (c # cs) = 0x20 # replaceSpaces r"
      using True by (simp add: r_def)
    show ?thesis
    proof (cases "r = []")
      case True
      then show ?thesis unfolding eq by simp
    next
      case False
      then have nw: "\<not> isWhiteSpace (hd r)" unfolding r_def by (rule dropWhile_head)
      from replaceSpaces_head [OF False nw]
      have "replaceSpaces r \<noteq> []" and "hd (replaceSpaces r) = hd r" by simp_all
      moreover have "hd r \<noteq> 0x20" using nw by auto
      ultimately show ?thesis unfolding eq using ih
        by (simp add: noSpaceRun_Cons)
    qed
  next
    case False
    then have ih: "noSpaceRun (replaceSpaces cs)" using 2 by simp
    from False have "c \<noteq> 0x20" by auto
    with ih False show ?thesis by (simp add: noSpaceRun_Cons)
  qed
qed

subsection \<open>What trimming leaves\<close>

lemma trimEnd_last: "trimEnd s \<noteq> [] \<Longrightarrow> \<not> isWhiteSpace (last (trimEnd s))"
  unfolding trimEnd_def by (simp add: last_rev hd_dropWhile)

lemma trimEnd_id: "s = [] \<or> \<not> isWhiteSpace (last s) \<Longrightarrow> trimEnd s = s"
  unfolding trimEnd_def by (cases s rule: rev_cases) auto

lemma trimStart_id: "s = [] \<or> \<not> isWhiteSpace (hd s) \<Longrightarrow> trimStart s = s"
  unfolding trimStart_def by (cases s) auto

lemma trimEnd_hd: "s \<noteq> [] \<Longrightarrow> \<not> isWhiteSpace (hd s) \<Longrightarrow> trimEnd s \<noteq> [] \<and> hd (trimEnd s) = hd s"
proof (induction s rule: rev_induct)
  case Nil
  then show ?case by simp
next
  case (snoc x xs)
  show ?case
  proof (cases "xs = []")
    case True
    with snoc.prems show ?thesis by (simp add: trimEnd_def)
  next
    case False
    with snoc.prems have h: "\<not> isWhiteSpace (hd xs)" by simp
    from snoc.IH [OF False h] have ih: "trimEnd xs \<noteq> []" "hd (trimEnd xs) = hd xs" by simp_all
    show ?thesis
    proof (cases "isWhiteSpace x")
      case True
      then have "trimEnd (xs @ [x]) = trimEnd xs" by (simp add: trimEnd_def)
      with ih False show ?thesis by simp
    next
      case False
      then have "trimEnd (xs @ [x]) = xs @ [x]" by (simp add: trimEnd_def)
      with \<open>xs \<noteq> []\<close> show ?thesis by simp
    qed
  qed
qed

lemma noEdgeSpace_trim: "noEdgeSpace (trim s)"
proof (cases "trim s = []")
  case True
  then show ?thesis by (simp add: noEdgeSpace_def)
next
  case False
  then have ne: "trimStart s \<noteq> []" by (auto simp: trim_def trimEnd_def)
  then have h: "\<not> isWhiteSpace (hd (trimStart s))"
    unfolding trimStart_def by (rule dropWhile_head)
  from trimEnd_hd [OF ne h] have "hd (trim s) = hd (trimStart s)" by (simp add: trim_def)
  moreover have "\<not> isWhiteSpace (last (trim s))"
    using False unfolding trim_def by (rule trimEnd_last)
  ultimately show ?thesis using h by (simp add: noEdgeSpace_def)
qed

lemma trim_id: "noEdgeSpace s \<Longrightarrow> trim s = s"
  unfolding trim_def noEdgeSpace_def
  by (cases "s = []") (simp_all add: trimStart_id trimEnd_id)

subsection \<open>Strings the replacements leave alone\<close>

lemma replaceCRLF_id: "0x0D \<notin> set s \<Longrightarrow> replaceCRLF s = s"
  by (induction s rule: replaceCRLF.induct) auto

lemma replaceChar_id: "x \<notin> set s \<Longrightarrow> replaceChar x s = s"
  unfolding replaceChar_def by (induction s) auto

lemma replaceSpaces_id: "onlyPlainSpaces s \<Longrightarrow> noSpaceRun s \<Longrightarrow> replaceSpaces s = s"
proof (induction s rule: replaceSpaces.induct)
  case 1
  show ?case by simp
next
  case (2 c cs)
  from "2.prems" have ops: "onlyPlainSpaces cs" by (simp add: onlyPlainSpaces_def)
  from "2.prems" have nsr: "noSpaceRun cs" by (auto dest: noSpaceRun_tl)
  show ?case
  proof (cases "isWhiteSpace c")
    case True
    with "2.prems" have c: "c = 0x20" by (simp add: onlyPlainSpaces_def)
    have d: "dropWhile isWhiteSpace cs = cs"
    proof (cases cs)
      case Nil
      then show ?thesis by simp
    next
      case (Cons d ds)
      with "2.prems" c have "d \<noteq> 0x20" by simp
      moreover from ops Cons have "isWhiteSpace d \<longrightarrow> d = 0x20" by (simp add: onlyPlainSpaces_def)
      ultimately show ?thesis using Cons by auto
    qed
    from "2.IH"(1) [OF True] ops nsr d have "replaceSpaces cs = cs" by simp
    with True c d show ?thesis by simp
  next
    case False
    from "2.IH"(2) [OF False ops nsr] False show ?thesis by simp
  qed
qed

lemma onlyPlainSpaces_notin:
  "onlyPlainSpaces s \<Longrightarrow> isWhiteSpace x \<Longrightarrow> x \<noteq> 0x20 \<Longrightarrow> x \<notin> set s"
  by (auto simp: onlyPlainSpaces_def)

lemma ws_chars: "isWhiteSpace 0x09" "isWhiteSpace 0x0A" "isWhiteSpace 0x0D"
  by (simp_all add: isWhiteSpace_def)

lemma normalizeMessage_fixed:
  assumes "normalForm s" and "length s \<le> nat m"
  shows "normalizeMessage m s = s"
proof -
  from assms have ops: "onlyPlainSpaces s" and nsr: "noSpaceRun s" and nes: "noEdgeSpace s"
    by (simp_all add: normalForm_def)
  have a: "trim s = s" using nes by (rule trim_id)
  have b: "replaceCRLF s = s"
    by (rule replaceCRLF_id) (rule onlyPlainSpaces_notin [OF ops], simp_all add: ws_chars)
  have c: "replaceChar 0x0D s = s"
    by (rule replaceChar_id) (rule onlyPlainSpaces_notin [OF ops], simp_all add: ws_chars)
  have d: "replaceChar 0x0A s = s"
    by (rule replaceChar_id) (rule onlyPlainSpaces_notin [OF ops], simp_all add: ws_chars)
  have e: "replaceChar 0x09 s = s"
    by (rule replaceChar_id) (rule onlyPlainSpaces_notin [OF ops], simp_all add: ws_chars)
  have f: "replaceSpaces s = s" using ops nsr by (rule replaceSpaces_id)
  show ?thesis
    unfolding normalizeMessage_def a b c d e f substring0_def using assms(2) by simp
qed

lemma normalizeMessage_collapsed: "normalizeMessage m s = take (nat m) (collapsed s)"
  by (simp add: normalizeMessage_def collapsed_def substring0_def)

lemma normalForm_collapsed: "normalForm (collapsed s)"
  unfolding normalForm_def collapsed_def
  by (intro conjI onlyPlainSpaces_subset [OF set_trim onlyPlainSpaces_replaceSpaces]
        noSpaceRun_trim noSpaceRun_replaceSpaces noEdgeSpace_trim)

lemma onlyPlainSpaces_normalizeMessage: "onlyPlainSpaces (normalizeMessage m s)"
  unfolding normalizeMessage_collapsed
  using normalForm_collapsed [of s]
  by (auto simp: normalForm_def onlyPlainSpaces_def dest: in_set_takeD)

lemma noSpaceRun_normalizeMessage: "noSpaceRun (normalizeMessage m s)"
  unfolding normalizeMessage_collapsed
  using normalForm_collapsed [of s] by (simp add: normalForm_def noSpaceRun_take)

lemma length_normalizeMessage: "length (normalizeMessage m s) \<le> nat m"
  by (simp add: normalizeMessage_collapsed)

lemma hd_normalizeMessage:
  "normalizeMessage m s \<noteq> [] \<Longrightarrow> \<not> isWhiteSpace (hd (normalizeMessage m s))"
  unfolding normalizeMessage_collapsed
  using normalForm_collapsed [of s]
  by (cases "collapsed s"; cases "nat m") (auto simp: normalForm_def noEdgeSpace_def)

lemma butlast_normalForm:
  assumes "onlyPlainSpaces y" "noSpaceRun y" "y \<noteq> []" "\<not> isWhiteSpace (hd y)" "last y = 0x20"
  shows "normalForm (butlast y)"
proof -
  obtain xs where y: "y = xs @ [0x20]"
    using assms(3,5) by (metis append_butlast_last_id)
  have xs: "butlast y = xs" by (simp add: y)
  have ne: "xs \<noteq> []" using assms(4) y by (cases xs) auto
  have ops: "onlyPlainSpaces xs" using assms(1) by (simp add: y onlyPlainSpaces_def)
  have nsr: "noSpaceRun xs" using assms(2) unfolding y by (rule noSpaceRun_append_left)
  have h: "\<not> isWhiteSpace (hd xs)" using assms(4) ne by (simp add: y)
  obtain zs z where xsz: "xs = zs @ [z]" using ne by (metis rev_exhaust)
  have "noSpaceRun (zs @ [z, 0x20])"
    using assms(2) unfolding y xsz by simp
  then have "noSpaceRun [z, 0x20]" by (rule noSpaceRun_append_right)
  then have "z \<noteq> 0x20" by simp
  moreover have "isWhiteSpace z \<longrightarrow> z = 0x20" using ops by (simp add: xsz onlyPlainSpaces_def)
  ultimately have l: "\<not> isWhiteSpace (last xs)" by (auto simp: xsz)
  show ?thesis
    unfolding xs normalForm_def noEdgeSpace_def using ops nsr h l by simp
qed

section \<open>The logger\<close>

subsection \<open>One call of log\<close>

lemma writeToFile_keeps:
  "globalConfig (writeToFile toISO e st) = globalConfig st"
  "logBuffer (writeToFile toISO e st) = logBuffer st"
  "console (writeToFile toISO e st) = console st"
  by (simp_all add: writeToFile_def Let_def split: option.splits)

lemma log_filtered: "\<not> passesLevel (globalConfig st) lvl \<Longrightarrow> log toISO now ctx lvl msg md st = st"
  by (simp add: log_def passesLevel_def)

lemma log_globalConfig: "globalConfig (log toISO now ctx lvl msg md st) = globalConfig st"
  by (simp add: log_def Let_def writeToFile_keeps)

lemma log_console:
  "passesLevel (globalConfig st) lvl \<Longrightarrow>
   console (log toISO now ctx lvl msg md st) =
     console st @ [formatMessage toISO (globalConfig st)
       \<lparr>entry_timestamp = now, entry_level = lvl,
        entry_message = normalizeMessage (cfg_maxLineLength (globalConfig st)) msg,
        entry_context = ctx, entry_metadata = md\<rparr>]"
  by (simp add: log_def Let_def writeToFile_keeps passesLevel_def)

lemma log_logBuffer:
  "passesLevel (globalConfig st) lvl \<Longrightarrow>
   logBuffer (log toISO now ctx lvl msg md st) =
     (let buf = logBuffer st @ [\<lparr>entry_timestamp = now, entry_level = lvl,
        entry_message = normalizeMessage (cfg_maxLineLength (globalConfig st)) msg,
        entry_context = ctx, entry_metadata = md\<rparr>]
      in if length buf > 1000 then tl buf else buf)"
  by (simp add: log_def Let_def writeToFile_keeps passesLevel_def)

lemma log_length:
  "length (logBuffer st) \<le> 1000 \<Longrightarrow>
   length (logBuffer (log toISO now ctx lvl msg md st)) \<le> 1000"
  by (cases "passesLevel (globalConfig st) lvl") (auto simp: log_logBuffer log_filtered Let_def)

lemma configure_logBuffer: "logBuffer (configure p st) = logBuffer st"
  by (simp add: configure_def Let_def)

lemma reachable_length: "reachable toISO st \<Longrightarrow> length (logBuffer st) \<le> 1000"
  by (induction rule: reachable.induct)
     (simp_all add: log_length configure_logBuffer clearBuffer_def getRecentLogs_def Let_def)

subsection \<open>The last entries of a list\<close>

lemma drop_one_tl: "drop (Suc 0) ys = tl ys"
  by (cases ys) simp_all

lemma lastN_step:
  "length xs \<le> 1000 \<Longrightarrow>
   (let buf = xs @ [e] in if length buf > 1000 then tl buf else buf) = lastN 1000 (xs @ [e])"
proof (cases "length xs = 1000")
  case True
  then have "lastN 1000 (xs @ [e]) = drop (Suc 0) (xs @ [e])" by (simp add: lastN_def)
  also have "\<dots> = tl (xs @ [e])" by (rule drop_one_tl)
  finally show ?thesis using True by (simp add: Let_def)
next
  case False
  assume "length xs \<le> 1000"
  with False have "length xs < 1000" by simp
  then show ?thesis by (simp add: lastN_def Let_def)
qed

lemma lastN_lastN: "lastN n (lastN n xs @ ys) = lastN n (xs @ ys)"
proof (cases "length xs \<le> n")
  case True
  then show ?thesis by (simp add: lastN_def)
next
  case False
  define a where "a = length xs - n"
  have a: "length xs + length ys - n = length ys + a" using False by (simp add: a_def)
  have la: "length (drop a xs) = n" using False by (simp add: a_def)
  have "lastN n (xs @ ys) = drop (length ys + a) (xs @ ys)"
    by (simp only: lastN_def length_append a)
  also have "\<dots> = drop (length ys) (drop a (xs @ ys))" by (simp only: drop_drop)
  also have "drop a (xs @ ys) = drop a xs @ ys" by (simp add: a_def)
  finally have r: "lastN n (xs @ ys) = drop (length ys) (drop a xs @ ys)" .
  have "lastN n (lastN n xs @ ys) = lastN n (drop a xs @ ys)" by (simp add: lastN_def a_def)
  also have "\<dots> = drop (length ys) (drop a xs @ ys)"
    by (simp only: lastN_def length_append la) simp
  finally show ?thesis using r by simp
qed

subsection \<open>Sequences of calls\<close>

lemma logRequest_globalConfig: "globalConfig (logRequest toISO r st) = globalConfig st"
  by (simp add: logRequest_def log_globalConfig)

lemma logRequest_length:
  "length (logBuffer st) \<le> 1000 \<Longrightarrow> length (logBuffer (logRequest toISO r st)) \<le> 1000"
  by (simp add: logRequest_def log_length)

lemma logRequest_filtered:
  "\<not> passesLevel (globalConfig st) (req_level r) \<Longrightarrow> logRequest toISO r st = st"
  by (simp add: logRequest_def log_filtered)

lemma logRequest_logBuffer:
  "length (logBuffer st) \<le> 1000 \<Longrightarrow> passesLevel (globalConfig st) (req_level r) \<Longrightarrow>
   logBuffer (logRequest toISO r st) = lastN 1000 (logBuffer st @ [entryOf (globalConfig st) r])"
  using lastN_step [of "logBuffer st" "entryOf (globalConfig st) r"]
  by (simp add: logRequest_def log_logBuffer entryOf_def)

lemma logRequest_console:
  "passesLevel (globalConfig st) (req_level r) \<Longrightarrow>
   console (logRequest toISO r st) =
     console st @ [formatMessage toISO (globalConfig st) (entryOf (globalConfig st) r)]"
  by (simp add: logRequest_def log_console entryOf_def)

lemma logAll_logBuffer:
  "length (logBuffer st) \<le> 1000 \<Longrightarrow>
   logBuffer (logAll toISO rs st) =
     lastN 1000 (logBuffer st @ map (entryOf (globalConfig st))
       (filter (\<lambda>r. passesLevel (globalConfig st) (req_level r)) rs))"
proof (induction rs arbitrary: st)
  case Nil
  then show ?case by (simp add: logAll_def lastN_def)
next
  case (Cons r rs)
  let ?st = "logRequest toISO r st"
  let ?cfg = "globalConfig st"
  let ?rest = "map (entryOf ?cfg) (filter (\<lambda>r. passesLevel ?cfg (req_level r)) rs)"
  have cfg: "globalConfig ?st = ?cfg" by (rule logRequest_globalConfig)
  have len: "length (logBuffer ?st) \<le> 1000" using Cons.prems by (rule logRequest_length)
  have "logBuffer (logAll toISO (r # rs) st) = logBuffer (logAll toISO rs ?st)"
    by (simp add: logAll_def)
  also have "\<dots> = lastN 1000 (logBuffer ?st @ ?rest)"
    using Cons.IH [OF len] by (simp add: cfg)
  finally have step: "logBuffer (logAll toISO (r # rs) st) = lastN 1000 (logBuffer ?st @ ?rest)" .
  show ?case
  proof (cases "passesLevel ?cfg (req_level r)")
    case True
    have "logBuffer ?st = lastN 1000 (logBuffer st @ [entryOf ?cfg r])"
      using Cons.prems True by (rule logRequest_logBuffer)
    then show ?thesis unfolding step using True by (simp add: lastN_lastN)
  next
    case False
    then have "?st = st" by (rule logRequest_filtered)
    then show ?thesis unfolding step using False by simp
  qed
qed

lemma logAll_console:
  "console (logAll toISO rs st) =
     console st @ map (\<lambda>r. formatMessage toISO (globalConfig st) (entryOf (globalConfig st) r))
       (filter (\<lambda>r. passesLevel (globalConfig st) (req_level r)) rs)"
proof (induction rs arbitrary: st)
  case Nil
  then show ?case by (simp add: logAll_def)
next
  case (Cons r rs)
  let ?st = "logRequest toISO r st"
  have cfg: "globalConfig ?st = globalConfig st" by (rule logRequest_globalConfig)
  have step: "console (logAll toISO (r # rs) st) = console (logAll toISO rs ?st)"
    by (simp add: logAll_def)
  show ?case
  proof (cases "passesLevel (globalConfig st) (req_level r)")
    case True
    then show ?thesis unfolding step Cons.IH [of ?st] cfg
      by (simp add: logRequest_console)
  next
    case False
    then have "?st = st" by (rule logRequest_filtered)
    then show ?thesis unfolding step Cons.IH [of ?st] using False by simp
  qed
qed

subsection \<open>Reading the buffer\<close>

lemma sliceFrom_neg: "0 < n \<Longrightarrow> sliceFrom (- n) xs = lastN (nat n) xs"
  by (auto simp: sliceFrom_def lastN_def Let_def max_def nat_diff_distrib')

lemma sliceFrom_zero: "sliceFrom 0 xs = xs"
  by (simp add: sliceFrom_def)

lemma getRecentLogs_positive:
  "0 < count \<Longrightarrow> getRecentLogs (Some count) st = (lastN (nat count) (logBuffer st), st)"
  by (simp add: getRecentLogs_def sliceFrom_neg)

lemma getRecentLogs_zero: "getRecentLogs (Some 0) st = (logBuffer st, st)"
  by (simp add: getRecentLogs_def sliceFrom_zero)

section \<open>Characters that normalization keeps\<close>

lemma filter_dropWhile_whitespace:
  "filter (\<lambda>c. \<not> isWhiteSpace c) (dropWhile isWhiteSpace s) = filter (\<lambda>c. \<not> isWhiteSpace c) s"
  by (induction s) auto

lemma filter_trim:
  "filter (\<lambda>c. \<not> isWhiteSpace c) (trim s) = filter (\<lambda>c. \<not> isWhiteSpace c) s"
proof -
  have "filter (\<lambda>c. \<not> isWhiteSpace c) (trimEnd t) = filter (\<lambda>c. \<not> isWhiteSpace c) t" for t
    unfolding trimEnd_def rev_filter [symmetric] filter_dropWhile_whitespace by simp
  then show ?thesis by (simp add: trim_def trimStart_def filter_dropWhile_whitespace)
qed

lemma filter_replaceCRLF:
  "filter (\<lambda>c. \<not> isWhiteSpace c) (replaceCRLF s) = filter (\<lambda>c. \<not> isWhiteSpace c) s"
  by (induction s rule: replaceCRLF.induct) (auto simp: ws_chars)

lemma filter_replaceChar:
  "isWhiteSpace x \<Longrightarrow>
   filter (\<lambda>c. \<not> isWhiteSpace c) (replaceChar x s) = filter (\<lambda>c. \<not> isWhiteSpace c) s"
  unfolding replaceChar_def by (induction s) auto

lemma filter_replaceSpaces:
  "filter (\<lambda>c. \<not> isWhiteSpace c) (replaceSpaces s) = filter (\<lambda>c. \<not> isWhiteSpace c) s"
  by (induction s rule: replaceSpaces.induct) (auto simp: filter_dropWhile_whitespace)

lemma filter_collapsed:
  "filter (\<lambda>c. \<not> isWhiteSpace c) (collapsed s) = filter (\<lambda>c. \<not> isWhiteSpace c) s"
  by (simp add: collapsed_def filter_trim filter_replaceSpaces filter_replaceChar
      filter_replaceCRLF ws_chars)

lemma filter_normalizeMessage:
  "filter (\<lambda>c. \<not> isWhiteSpace c) (normalizeMessage m s)
     @ filter (\<lambda>c. \<not> isWhiteSpace c) (drop (nat m) (collapsed s))
   = filter (\<lambda>c. \<not> isWhiteSpace c) s"
proof -
  have "filter (\<lambda>c. \<not> isWhiteSpace c) (take (nat m) (collapsed s))
      @ filter (\<lambda>c. \<not> isWhiteSpace c) (drop (nat m) (collapsed s))
    = filter (\<lambda>c. \<not> isWhiteSpace c) (collapsed s)"
    unfolding filter_append [symmetric] by simp
  then show ?thesis by (simp add: normalizeMessage_collapsed filter_collapsed)
qed

lemma normalizeMessage_uncut:
  "int (length (normalizeMessage m s)) < m \<Longrightarrow> normalizeMessage m s = collapsed s"
  by (simp add: normalizeMessage_collapsed)

section \<open>Claims about normalizeMessage\<close>

text \<open>
  C2, as amended. With the maximum line length held fixed, normalizing a normalized
  message changes nothing unless the normalized message ends in a space, which is what
  truncation leaves when it cuts right after a space; in that case the second
  normalization removes that one trailing space and nothing else.
\<close>

theorem normalizeMessage_twice:
  "normalizeMessage m (normalizeMessage m s) =
     (if normalizeMessage m s \<noteq> [] \<and> last (normalizeMessage m s) = 0x20
      then butlast (normalizeMessage m s) else normalizeMessage m s)"
proof -
  define y where "y = normalizeMessage m s"
  have ops: "onlyPlainSpaces y" and nsr: "noSpaceRun y" and len: "length y \<le> nat m"
    by (simp_all add: y_def onlyPlainSpaces_normalizeMessage noSpaceRun_normalizeMessage
        length_normalizeMessage)
  have h: "y \<noteq> [] \<Longrightarrow> \<not> isWhiteSpace (hd y)"
    unfolding y_def by (rule hd_normalizeMessage)
  show ?thesis
    unfolding y_def [symmetric]
  proof (cases "y \<noteq> [] \<and> last y = 0x20")
    case True
    then have ne: "y \<noteq> []" and l: "last y = 0x20" by simp_all
    have nf: "normalForm (butlast y)"
      using ops nsr ne h [OF ne] l by (rule butlast_normalForm)
    have y: "y = butlast y @ [0x20]" using ne l by (metis append_butlast_last_id)
    have bl: "butlast y = [] \<or> \<not> isWhiteSpace (last (butlast y))"
      using nf by (auto simp: normalForm_def noEdgeSpace_def)
    have "trimEnd y = trimEnd (butlast y)"
      by (subst y) (simp add: trimEnd_def)
    also have "\<dots> = butlast y" using bl by (rule trimEnd_id)
    finally have te: "trimEnd y = butlast y" .
    have ts: "trimStart y = y" using h [OF ne] by (simp add: trimStart_id)
    have t: "trim y = butlast y" by (simp add: trim_def ts te)
    have "normalizeMessage m y = normalizeMessage m (trim y)"
      by (simp add: normalizeMessage_def trim_id [OF noEdgeSpace_trim])
    also have "\<dots> = butlast y"
      unfolding t using nf len by (intro normalizeMessage_fixed) simp_all
    finally show "normalizeMessage m y = (if y \<noteq> [] \<and> last y = 0x20 then butlast y else y)"
      using True by simp
  next
    case False
    have nes: "noEdgeSpace y"
    proof (cases "y = []")
      case True
      then show ?thesis by (simp add: noEdgeSpace_def)
    next
      case ne: False
      with False have "last y \<noteq> 0x20" by simp
      moreover have "last y \<in> set y" using ne by simp
      ultimately have "\<not> isWhiteSpace (last y)" using ops by (auto simp: onlyPlainSpaces_def)
      with h [OF ne] show ?thesis by (simp add: noEdgeSpace_def)
    qed
    have "normalizeMessage m y = y"
      using ops nsr nes len by (intro normalizeMessage_fixed) (simp_all add: normalForm_def)
    with False show "normalizeMessage m y = (if y \<noteq> [] \<and> last y = 0x20 then butlast y else y)"
      by auto
  qed
qed

text \<open>
  C2, witness: at maximum length 3 the message \<open>ab cd\<close> is cut to \<open>ab\<close> and a space, and
  normalizing again drops the space; at maximum length 200 nothing is cut and the second
  normalization returns its argument.
\<close>

theorem normalizeMessage_twice_witness:
  "normalizeMessage 3 (js ''ab cd'') = js ''ab '' \<and>
   normalizeMessage 3 (normalizeMessage 3 (js ''ab cd'')) = js ''ab'' \<and>
   normalizeMessage 200 (js ''  ab   cd '') = js ''ab cd'' \<and>
   normalizeMessage 200 (normalizeMessage 200 (js ''  ab   cd '')) = js ''ab cd''"
proof -
  have a: "normalizeMessage 3 (js ''ab cd'') = js ''ab ''" by code_simp
  have b: "normalizeMessage 200 (js ''  ab   cd '') = js ''ab cd''" by code_simp
  show ?thesis
    using normalizeMessage_twice [of 3 "js ''ab cd''"]
      normalizeMessage_twice [of 200 "js ''  ab   cd ''"]
    unfolding a b by (simp add: js_def)
qed

text \<open>
  C2, counterexample to the claim as stated: at maximum length 3, normalizing \<open>ab cd\<close>
  twice differs from normalizing it once.
\<close>

theorem normalizeMessage_not_idempotent:
  "normalizeMessage 3 (normalizeMessage 3 (js ''ab cd'')) \<noteq> normalizeMessage 3 (js ''ab cd'')"
  by code_simp

text \<open>
  C7, as amended. For every message and every maximum line length, the output of
  \<open>normalizeMessage\<close> contains no whitespace character other than the space U+0020, so
  none of TAB, LF, VT, FF and CR; it contains no two consecutive spaces; and its length
  is at most the maximum line length, or 0 when that is negative. Characters that are
  not whitespace, among them the control characters U+0000 to U+0008, U+000E to U+001F
  and U+007F, are neither replaced nor dropped by the normalization itself: the
  characters of the output other than spaces are, in order, the non-whitespace
  characters of the input up to the point where the cut to the maximum length falls,
  and they are all of them when the output is shorter than the maximum length.
\<close>

theorem normalizeMessage_output:
  "(\<forall>c \<in> set (normalizeMessage m s). isWhiteSpace c \<longrightarrow> c = 0x20) \<and>
   (\<forall>c \<in> set (normalizeMessage m s). c \<notin> {0x09, 0x0A, 0x0B, 0x0C, 0x0D}) \<and>
   noSpaceRun (normalizeMessage m s) \<and>
   int (length (normalizeMessage m s)) \<le> max 0 m \<and>
   filter (\<lambda>c. \<not> isWhiteSpace c) (normalizeMessage m s)
     @ filter (\<lambda>c. \<not> isWhiteSpace c) (drop (nat m) (collapsed s))
     = filter (\<lambda>c. \<not> isWhiteSpace c) s \<and>
   (int (length (normalizeMessage m s)) < m \<longrightarrow>
      filter (\<lambda>c. \<not> isWhiteSpace c) (normalizeMessage m s) = filter (\<lambda>c. \<not> isWhiteSpace c) s \<and>
      (\<forall>c \<in> set s. isControl c \<and> \<not> isWhiteSpace c \<longrightarrow> c \<in> set (normalizeMessage m s)))"
proof -
  have ops: "onlyPlainSpaces (normalizeMessage m s)" by (rule onlyPlainSpaces_normalizeMessage)
  have a: "\<forall>c \<in> set (normalizeMessage m s). isWhiteSpace c \<longrightarrow> c = 0x20"
    using ops by (simp add: onlyPlainSpaces_def)
  have b: "\<forall>c \<in> set (normalizeMessage m s). c \<notin> {0x09, 0x0A, 0x0B, 0x0C, 0x0D}"
  proof
    fix c assume c: "c \<in> set (normalizeMessage m s)"
    show "c \<notin> {0x09, 0x0A, 0x0B, 0x0C, 0x0D}"
    proof
      assume "c \<in> {0x09, 0x0A, 0x0B, 0x0C, 0x0D}"
      then have "isWhiteSpace c \<and> c \<noteq> 0x20" by (auto simp: isWhiteSpace_def)
      with a c show False by blast
    qed
  qed
  have d: "int (length (normalizeMessage m s)) \<le> max 0 m"
    using length_normalizeMessage [of m s] by linarith
  have e: "filter (\<lambda>c. \<not> isWhiteSpace c) (normalizeMessage m s) = filter (\<lambda>c. \<not> isWhiteSpace c) s"
    if "int (length (normalizeMessage m s)) < m"
    using normalizeMessage_uncut [OF that] by (simp add: filter_collapsed)
  have f: "\<forall>c \<in> set s. isControl c \<and> \<not> isWhiteSpace c \<longrightarrow> c \<in> set (normalizeMessage m s)"
    if u: "int (length (normalizeMessage m s)) < m"
  proof (intro ballI impI)
    fix c assume "c \<in> set s" and "isControl c \<and> \<not> isWhiteSpace c"
    then have "c \<in> set (filter (\<lambda>c. \<not> isWhiteSpace c) s)" by simp
    then have "c \<in> set (filter (\<lambda>c. \<not> isWhiteSpace c) (normalizeMessage m s))"
      by (simp only: e [OF u])
    then show "c \<in> set (normalizeMessage m s)" by simp
  qed
  show ?thesis
    using a b d e f noSpaceRun_normalizeMessage [of m s] filter_normalizeMessage [of m s]
    by blast
qed

text \<open>
  C7, witness: a message with leading spaces, CR LF, CR, TAB, a no-break space and an
  em space, cut at length 8; and the message ESC, TAB, space, DEL, LF at maximum length
  200, whose normalization keeps ESC and DEL.
\<close>

theorem normalizeMessage_output_witness:
  "normalizeMessage 8 (js ''  a'' @ [0x0D, 0x0A, 0x0D, 0x09, 0xA0, 0x2003] @ js ''b  c   defgh '')
     = js ''a b c de'' \<and>
   onlyPlainSpaces (js ''a b c de'') \<and>
   set (js ''a b c de'') \<inter> {0x09, 0x0A, 0x0B, 0x0C, 0x0D} = {} \<and>
   noSpaceRun (js ''a b c de'') \<and> int (length (js ''a b c de'')) \<le> max 0 8 \<and>
   normalizeMessage 200 [0x1B, 0x09, 0x20, 0x7F, 0x0A] = [0x1B, 0x20, 0x7F] \<and>
   int (length (normalizeMessage 200 [0x1B, 0x09, 0x20, 0x7F, 0x0A])) < 200 \<and>
   isControl 0x1B \<and> \<not> isWhiteSpace 0x1B \<and> isControl 0x7F \<and> \<not> isWhiteSpace 0x7F \<and>
   filter (\<lambda>c. \<not> isWhiteSpace c) (normalizeMessage 200 [0x1B, 0x09, 0x20, 0x7F, 0x0A]) =
     [0x1B, 0x7F] \<and>
   0x1B \<in> set (normalizeMessage 200 [0x1B, 0x09, 0x20, 0x7F, 0x0A]) \<and>
   0x7F \<in> set (normalizeMessage 200 [0x1B, 0x09, 0x20, 0x7F, 0x0A])"
proof -
  let ?in = "js ''  a'' @ [0x0D, 0x0A, 0x0D, 0x09, 0xA0, 0x2003] @ js ''b  c   defgh ''"
  let ?ctl = "[0x1B, 0x09, 0x20, 0x7F, 0x0A] :: jsstring"
  have e: "normalizeMessage 8 ?in = js ''a b c de''" by code_simp
  have g: "normalizeMessage 200 ?ctl = [0x1B, 0x20, 0x7F]" by code_simp
  have ctl: "isControl 0x1B \<and> \<not> isWhiteSpace 0x1B \<and> isControl 0x7F \<and> \<not> isWhiteSpace 0x7F"
    by (simp add: isControl_def isWhiteSpace_def)
  have "onlyPlainSpaces (js ''a b c de'')"
    using normalizeMessage_output [of 8 ?in] unfolding e onlyPlainSpaces_def by blast
  moreover have "set (js ''a b c de'') \<inter> {0x09, 0x0A, 0x0B, 0x0C, 0x0D} = {}"
    using normalizeMessage_output [of 8 ?in] unfolding e by blast
  moreover have "noSpaceRun (js ''a b c de'') \<and> int (length (js ''a b c de'')) \<le> max 0 8"
    using normalizeMessage_output [of 8 ?in] unfolding e by blast
  moreover have u: "int (length (normalizeMessage 200 ?ctl)) < 200" by (simp add: g)
  moreover have "filter (\<lambda>c. \<not> isWhiteSpace c) (normalizeMessage 200 ?ctl) =
      filter (\<lambda>c. \<not> isWhiteSpace c) ?ctl"
    and m: "\<forall>c \<in> set ?ctl. isControl c \<and> \<not> isWhiteSpace c \<longrightarrow> c \<in> set (normalizeMessage 200 ?ctl)"
    using normalizeMessage_output [of 200 ?ctl] u by blast+
  then have "filter (\<lambda>c. \<not> isWhiteSpace c) (normalizeMessage 200 ?ctl) = [0x1B, 0x7F]"
    by (simp add: isWhiteSpace_def)
  moreover have "0x1B \<in> set (normalizeMessage 200 ?ctl)" "0x7F \<in> set (normalizeMessage 200 ?ctl)"
    using m ctl by simp_all
  ultimately show ?thesis using e g ctl by (intro conjI) simp_all
qed

text \<open>
  C7, counterexample to the claim as stated: the message \<open>a\<close>, TAB, U+0001, \<open>b\<close> contains
  a TAB, and its normalization still contains the control character U+0001.
\<close>

theorem normalizeMessage_keeps_control:
  "isControl 0x01 \<and> 0x01 \<in> set (normalizeMessage 200 [0x61, 0x09, 0x01, 0x62])"
  by code_simp

section \<open>Claims about the logger\<close>

lemma reachable_logAll: "reachable toISO st \<Longrightarrow> reachable toISO (logAll toISO rs st)"
proof (induction rs arbitrary: st)
  case Nil
  then show ?case by (simp add: logAll_def)
next
  case (Cons r rs)
  have "reachable toISO (logRequest toISO r st)"
    unfolding logRequest_def using Cons.prems by (rule reach_log)
  from Cons.IH [OF this] show ?case by (simp add: logAll_def)
qed

text \<open>
  C3. A call of \<open>log\<close> whose level is below the configured minimum returns the state
  of the logger as it was: nothing is appended to the buffer and no sink is written.
  A call whose level is at least the minimum writes exactly one line, the formatted
  entry, to the console and appends exactly one entry to the buffer, with the level of
  the call and the normalized message (the oldest entry leaves a full buffer).
  \<open>debug\<close>, \<open>info\<close>, \<open>warn\<close> and \<open>error\<close> are \<open>log\<close> at their level. For a sequence of
  calls, the console receives the formatted entries of exactly the calls that pass the
  level, in order, and the buffer holds the last 1000 of the old entries followed by
  the entries of those calls.
\<close>

theorem log_level_filter:
  "(\<not> passesLevel (globalConfig st) lvl \<longrightarrow> log toISO now ctx lvl message metadata st = st) \<and>
   (passesLevel (globalConfig st) lvl \<longrightarrow>
      console (log toISO now ctx lvl message metadata st) =
        console st @ [formatMessage toISO (globalConfig st)
          \<lparr>entry_timestamp = now, entry_level = lvl,
           entry_message = normalizeMessage (cfg_maxLineLength (globalConfig st)) message,
           entry_context = ctx, entry_metadata = metadata\<rparr>] \<and>
      logBuffer (log toISO now ctx lvl message metadata st) =
        (if length (logBuffer st) < 1000 then logBuffer st else tl (logBuffer st))
        @ [\<lparr>entry_timestamp = now, entry_level = lvl,
            entry_message = normalizeMessage (cfg_maxLineLength (globalConfig st)) message,
            entry_context = ctx, entry_metadata = metadata\<rparr>]) \<and>
   debug toISO now ctx message metadata st = log toISO now ctx DEBUG message metadata st \<and>
   info toISO now ctx message metadata st = log toISO now ctx INFO message metadata st \<and>
   warn toISO now ctx message metadata st = log toISO now ctx WARN message metadata st \<and>
   error toISO now ctx message metadata st = log toISO now ctx ERROR message metadata st \<and>
   console (logAll toISO rs st) =
     console st @ map (\<lambda>r. formatMessage toISO (globalConfig st) (entryOf (globalConfig st) r))
       (filter (\<lambda>r. passesLevel (globalConfig st) (req_level r)) rs) \<and>
   (length (logBuffer st) \<le> 1000 \<longrightarrow>
      logBuffer (logAll toISO rs st) =
        lastN 1000 (logBuffer st @ map (entryOf (globalConfig st))
          (filter (\<lambda>r. passesLevel (globalConfig st) (req_level r)) rs)))"
proof -
  have buf: "logBuffer (log toISO now ctx lvl message metadata st) =
        (if length (logBuffer st) < 1000 then logBuffer st else tl (logBuffer st))
        @ [\<lparr>entry_timestamp = now, entry_level = lvl,
            entry_message = normalizeMessage (cfg_maxLineLength (globalConfig st)) message,
            entry_context = ctx, entry_metadata = metadata\<rparr>]"
    if "passesLevel (globalConfig st) lvl"
    using that by (cases "logBuffer st") (auto simp: log_logBuffer Let_def)
  show ?thesis
    using buf
    by (simp add: log_filtered log_console logAll_console logAll_logBuffer
        debug_def info_def warn_def error_def)
qed

text \<open>
  C3, witness: after \<open>configure({level: WARN})\<close>, \<open>info("x")\<close> leaves the logger as it
  was, and \<open>warn("y")\<close> puts one entry with level WARN and message \<open>y\<close> in the buffer and
  one line on the console.
\<close>

theorem log_level_filter_witness:
  "\<not> passesLevel (globalConfig (configure \<lparr>opt_level = Some WARN, opt_enableTimestamps = None,
        opt_enableColors = None, opt_enableFileLogging = None, opt_logFile = None,
        opt_maxLineLength = None, opt_context = None\<rparr> initialLogger)) INFO \<and>
   info showInt 5 (js ''APP'') (js ''x'') MetaUndefined
     (configure \<lparr>opt_level = Some WARN, opt_enableTimestamps = None,
        opt_enableColors = None, opt_enableFileLogging = None, opt_logFile = None,
        opt_maxLineLength = None, opt_context = None\<rparr> initialLogger) =
     configure \<lparr>opt_level = Some WARN, opt_enableTimestamps = None,
        opt_enableColors = None, opt_enableFileLogging = None, opt_logFile = None,
        opt_maxLineLength = None, opt_context = None\<rparr> initialLogger \<and>
   passesLevel (globalConfig (configure \<lparr>opt_level = Some WARN, opt_enableTimestamps = None,
        opt_enableColors = None, opt_enableFileLogging = None, opt_logFile = None,
        opt_maxLineLength = None, opt_context = None\<rparr> initialLogger)) WARN \<and>
   logBuffer (warn showInt 6 (js ''APP'') (js ''y'') MetaUndefined
     (configure \<lparr>opt_level = Some WARN, opt_enableTimestamps = None,
        opt_enableColors = None, opt_enableFileLogging = None, opt_logFile = None,
        opt_maxLineLength = None, opt_context = None\<rparr> initialLogger)) =
     [\<lparr>entry_timestamp = 6, entry_level = WARN, entry_message = js ''y'',
       entry_context = js ''APP'', entry_metadata = MetaUndefined\<rparr>] \<and>
   console (warn showInt 6 (js ''APP'') (js ''y'') MetaUndefined
     (configure \<lparr>opt_level = Some WARN, opt_enableTimestamps = None,
        opt_enableColors = None, opt_enableFileLogging = None, opt_logFile = None,
        opt_maxLineLength = None, opt_context = None\<rparr> initialLogger)) =
     [js ''[6] '' @ [0x1B] @ js ''[33m'' @ [0x26A0, 0xFE0F] @ js ''[APP] y'' @ [0x1B] @ js ''[0m'']"
proof -
  define st where "st = configure \<lparr>opt_level = Some WARN, opt_enableTimestamps = None,
        opt_enableColors = None, opt_enableFileLogging = None, opt_logFile = None,
        opt_maxLineLength = None, opt_context = None\<rparr> initialLogger"
  have cfg: "globalConfig st = defaultConfig\<lparr>cfg_level := WARN\<rparr>"
    and buf: "logBuffer st = []" and con: "console st = []"
    by (simp_all add: st_def configure_def mergeConfig_def initialLogger_def defaultConfig_def Let_def)
  have low: "\<not> passesLevel (globalConfig st) INFO" by (simp add: cfg passesLevel_def)
  have high: "passesLevel (globalConfig st) WARN" by (simp add: cfg passesLevel_def)
  have y: "normalizeMessage 200 (js ''y'') = js ''y''" by code_simp
  have six: "showInt 6 = js ''6''" by code_simp
  have a: "info showInt 5 (js ''APP'') (js ''x'') MetaUndefined st = st"
    using log_level_filter [of st INFO showInt 5 "js ''APP''" "js ''x''" MetaUndefined "[]"] low
    by simp
  have b: "logBuffer (warn showInt 6 (js ''APP'') (js ''y'') MetaUndefined st) =
     [\<lparr>entry_timestamp = 6, entry_level = WARN, entry_message = js ''y'',
       entry_context = js ''APP'', entry_metadata = MetaUndefined\<rparr>]"
    using log_level_filter [of st WARN showInt 6 "js ''APP''" "js ''y''" MetaUndefined "[]"] high
    by (simp add: buf cfg defaultConfig_def y)
  have c: "console (warn showInt 6 (js ''APP'') (js ''y'') MetaUndefined st) =
     [js ''[6] '' @ [0x1B] @ js ''[33m'' @ [0x26A0, 0xFE0F] @ js ''[APP] y'' @ [0x1B] @ js ''[0m'']"
    using log_level_filter [of st WARN showInt 6 "js ''APP''" "js ''y''" MetaUndefined "[]"] high
    by (simp add: con cfg defaultConfig_def y [unfolded js_def, simplified] six
        formatMessage_def getColorCode_def getResetCode_def js_def)
  show ?thesis
    using low a high b c unfolding st_def by blast
qed

text \<open>
  C4. The buffer never holds more than 1000 entries: in every state that the
  operations of the logger reach from an empty buffer, and after every call of \<open>log\<close> on
  a buffer of at most 1000 entries. After a sequence of calls it holds the last 1000 of
  the old entries followed by one entry for each call that passed the level, in
  order. In particular, 1001 passing calls on an empty buffer leave exactly 1000
  entries: those of the calls 2 to 1001, in order, without the first. \<open>clearBuffer\<close>
  empties it.
\<close>

theorem logBuffer_ring:
  "(reachable toISO st \<longrightarrow> length (logBuffer st) \<le> 1000) \<and>
   (length (logBuffer st) \<le> 1000 \<longrightarrow>
      length (logBuffer (log toISO now ctx lvl message metadata st)) \<le> 1000 \<and>
      logBuffer (logAll toISO rs st) =
        lastN 1000 (logBuffer st @ map (entryOf (globalConfig st))
          (filter (\<lambda>r. passesLevel (globalConfig st) (req_level r)) rs))) \<and>
   (logBuffer st = [] \<and> length rs = 1001 \<and>
      (\<forall>r \<in> set rs. passesLevel (globalConfig st) (req_level r)) \<longrightarrow>
      length (logBuffer (logAll toISO rs st)) = 1000 \<and>
      logBuffer (logAll toISO rs st) = tl (map (entryOf (globalConfig st)) rs)) \<and>
   logBuffer (clearBuffer st) = []"
proof -
  have ring: "length (logBuffer (logAll toISO rs st)) = 1000 \<and>
      logBuffer (logAll toISO rs st) = tl (map (entryOf (globalConfig st)) rs)"
    if e: "logBuffer st = []" and n: "length rs = 1001"
      and p: "\<forall>r \<in> set rs. passesLevel (globalConfig st) (req_level r)"
  proof -
    have f: "filter (\<lambda>r. passesLevel (globalConfig st) (req_level r)) rs = rs"
      using p by (simp add: filter_id_conv)
    have "logBuffer (logAll toISO rs st) = lastN 1000 (map (entryOf (globalConfig st)) rs)"
      using logAll_logBuffer [of st toISO rs] by (simp add: e f)
    also have "\<dots> = drop (Suc 0) (map (entryOf (globalConfig st)) rs)"
      by (simp add: lastN_def n)
    also have "\<dots> = tl (map (entryOf (globalConfig st)) rs)" by (rule drop_one_tl)
    finally show ?thesis by (simp add: n)
  qed
  show ?thesis
    using ring by (simp add: reachable_length log_length logAll_logBuffer clearBuffer_def)
qed

text \<open>
  C4, witness: 1001 calls at level INFO, numbered 1 to 1001 by their time, on the
  initial logger. The buffer then holds the entries 2 to 1001 and not the entry 1.
\<close>

theorem logBuffer_ring_witness:
  "logBuffer initialLogger = [] \<and>
   length (map numberedRequest [1..<1002]) = 1001 \<and>
   list_all (\<lambda>r. passesLevel (globalConfig initialLogger) (req_level r))
     (map numberedRequest [1..<1002]) \<and>
   length (logBuffer (logAll showInt (map numberedRequest [1..<1002]) initialLogger)) = 1000 \<and>
   logBuffer (logAll showInt (map numberedRequest [1..<1002]) initialLogger) =
     map (\<lambda>i. entryOf defaultConfig (numberedRequest i)) [2..<1002] \<and>
   entryOf defaultConfig (numberedRequest 1) \<notin>
     set (logBuffer (logAll showInt (map numberedRequest [1..<1002]) initialLogger)) \<and>
   reachable showInt (logAll showInt (map numberedRequest [1..<1002]) initialLogger) \<and>
   length (logBuffer (clearBuffer
     (logAll showInt (map numberedRequest [1..<1002]) initialLogger))) = 0"
proof -
  note upt_rec_numeral [simp del]
  define rs where "rs = map numberedRequest [1..<1002]"
  define st where "st = logAll showInt rs initialLogger"
  have e: "logBuffer initialLogger = []" by (simp add: initialLogger_def)
  have cfg: "globalConfig initialLogger = defaultConfig" by (simp add: initialLogger_def)
  have n: "length rs = 1001" by (simp add: rs_def)
  have p: "\<forall>r \<in> set rs. passesLevel (globalConfig initialLogger) (req_level r)"
    by (auto simp: rs_def numberedRequest_def cfg defaultConfig_def passesLevel_def)
  have r: "reachable showInt st"
    unfolding st_def by (rule reachable_logAll) (rule reach_init, rule e)
  have "(1::nat) < 1002" by simp
  from upt_conv_Cons [OF this] have u: "[1..<1002] = 1 # [2..<1002]" by (simp only: Suc_1)
  have t: "tl (map (entryOf defaultConfig) rs) =
      map (\<lambda>i. entryOf defaultConfig (numberedRequest i)) [2..<1002]"
    unfolding rs_def u by simp
  have "length (logBuffer st) = 1000 \<and> logBuffer st = tl (map (entryOf defaultConfig) rs)"
    using logBuffer_ring [of showInt initialLogger 0 "[]" INFO "[]" MetaUndefined rs] e n p
    unfolding cfg st_def by blast
  then have l: "length (logBuffer st) = 1000"
    and b: "logBuffer st = map (\<lambda>i. entryOf defaultConfig (numberedRequest i)) [2..<1002]"
    unfolding t by blast+
  have c: "length (logBuffer (clearBuffer st)) = 0"
    using logBuffer_ring [of showInt st 0 "[]" INFO "[]" MetaUndefined "[]"] by simp
  have a: "entryOf defaultConfig (numberedRequest 1) \<notin> set (logBuffer st)"
    unfolding b by (auto simp: entryOf_def numberedRequest_def)
  have q: "list_all (\<lambda>r. passesLevel (globalConfig initialLogger) (req_level r)) rs"
    using p by (simp add: list_all_iff)
  show ?thesis
    using e n q l b a r c unfolding st_def rs_def by blast
qed

text \<open>
  C9, the code at the failing input: with two entries in the buffer,
  \<open>getRecentLogs(0)\<close> returns both of them, since \<open>slice(-0)\<close> is \<open>slice(0)\<close>; the claim
  asks for the empty list. (For a positive count, \<open>getRecentLogs_positive\<close> above gives
  the last \<open>count\<close> entries and the state unchanged.)
\<close>

theorem getRecentLogs_zero_returns_all:
  "fst (getRecentLogs (Some 0)
     (logAll showInt
        [\<lparr>req_now = 1, req_context = js ''APP'', req_level = INFO, req_message = js ''a'',
           req_metadata = MetaUndefined\<rparr>,
         \<lparr>req_now = 2, req_context = js ''APP'', req_level = ERROR, req_message = js ''b'',
           req_metadata = MetaUndefined\<rparr>] initialLogger)) =
     [\<lparr>entry_timestamp = 1, entry_level = INFO, entry_message = js ''a'',
        entry_context = js ''APP'', entry_metadata = MetaUndefined\<rparr>,
      \<lparr>entry_timestamp = 2, entry_level = ERROR, entry_message = js ''b'',
        entry_context = js ''APP'', entry_metadata = MetaUndefined\<rparr>]"
proof -
  have a: "normalizeMessage 200 (js ''a'') = js ''a''" by code_simp
  have b: "normalizeMessage 200 (js ''b'') = js ''b''" by code_simp
  show ?thesis
    by (simp add: getRecentLogs_zero logAll_logBuffer initialLogger_def defaultConfig_def
        passesLevel_def entryOf_def lastN_def a b)
qed

section \<open>The listener\<close>

subsection \<open>Counting a finished test\<close>

lemma emit_fields [simp]:
  "suiteContext (emit c L) = suiteContext L"
  "executionContext (emit c L) = executionContext L"
  "config (emit c L) = config L"
  "loggerCalls (emit c L) = loggerCalls L @ [c]"
  by (simp_all add: emit_def)

lemma loggerInfo_fields [simp]:
  "suiteContext (loggerInfo m L) = suiteContext L"
  "executionContext (loggerInfo m L) = executionContext L"
  "config (loggerInfo m L) = config L"
  "loggerCalls (loggerInfo m L) = loggerCalls L @ [CallInfo m MetaUndefined]"
  by (simp_all add: loggerInfo_def)

lemma onTestBegin_suiteContext: "suiteContext (onTestBegin now test L) = suiteContext L"
  by (simp add: onTestBegin_def onTestStart_def Let_def)

lemma onTestFinish_absent:
  "map_of (suiteContext L) (suiteKey test) = None \<Longrightarrow> onTestFinish test result L = L"
  by (simp add: onTestFinish_def suiteKey_def Let_def)

lemma onTestFinish_executionContext:
  "executionContext (onTestFinish test result L) = executionContext L"
  "loggerCalls (onTestFinish test result L) = loggerCalls L"
  by (simp_all add: onTestFinish_def Let_def split: option.splits)

lemma onTestFinish_counters:
  "suiteCounters (onTestFinish test result L) name =
     (if name = suiteKey test then map_option (countTest (res_status result)) (suiteCounters L name)
      else suiteCounters L name)"
  by (cases "res_status result")
     (auto simp: onTestFinish_def suiteKey_def suiteCounters_def counters_def Let_def
        update_conv' split: option.splits)

lemma onTestFinish_depends:
  "suiteContext L1 = suiteContext L \<Longrightarrow>
   suiteContext (onTestFinish test result L1) = suiteContext (onTestFinish test result L)"
  by (simp add: onTestFinish_def Let_def split: option.splits)

lemma onTestEnd_suiteContext:
  "suiteContext (onTestEnd now test result L) = suiteContext (onTestFinish test result L)"
  unfolding onTestEnd_def Let_def
  by (rule onTestFinish_depends) (simp split: option.splits)

lemma onTestEnd_counters:
  "suiteCounters (onTestEnd now test result L) name =
     (if name = suiteKey test then map_option (countTest (res_status result)) (suiteCounters L name)
      else suiteCounters L name)"
  using onTestFinish_counters [of test result L name]
  by (simp add: suiteCounters_def onTestEnd_suiteContext)

lemma onTestEnd_unbegun:
  "map_of (executionContext L) (getTestId test) = None \<Longrightarrow>
   onTestEnd now test result L = onTestFinish test result L"
  by (simp add: onTestEnd_def Let_def)


lemma onTestSuiteStart_keys:
  "fst ` set (suiteContext (onTestSuiteStart now s L)) =
     insert (if suiteTitle s \<noteq> [] then suiteTitle s else js ''Root Suite'')
       (fst ` set (suiteContext L))"
  by (simp add: onTestSuiteStart_def Let_def dom_update)

lemma initializeSuites_keys:
  "fst ` set (suiteContext (initializeSuites now s L)) =
     fst ` set (suiteContext L) \<union> {t \<in> set (suiteTitles s). t \<noteq> []}"
  "fst ` set (suiteContext (initializeChildSuites now cs L)) =
     fst ` set (suiteContext L) \<union> {t \<in> \<Union> (set ` suiteTitles ` set cs). t \<noteq> []}"
  by (induction now s L and now cs L rule: initializeSuites_initializeChildSuites.induct)
     (auto simp: onTestSuiteStart_keys)

lemma countTest_explicit:
  "countTest st (t, p, f, s) =
     (t + 1, p + (if st = Passed then 1 else 0),
      f + (if st = Failed \<or> st = TimedOut \<or> st = Interrupted then 1 else 0),
      s + (if st = Skipped then 1 else 0))"
  by (cases st) simp_all

subsection \<open>Events between begin and end\<close>

lemma onStepEnd_suiteContext: "suiteContext (onStepEnd now test stp L) = suiteContext L"
  by (simp add: onStepEnd_def Let_def split: option.splits)

lemma onStepBegin_suiteContext:
  "onStepBegin now test stp L = Inr L' \<Longrightarrow> suiteContext L' = suiteContext L"
  by (auto simp: onStepBegin_def Let_def split: option.splits)

lemma onTestFinish_keys:
  "fst ` set (suiteContext (onTestFinish test result L)) = fst ` set (suiteContext L)"
proof (cases "map_of (suiteContext L) (suiteKey test)")
  case None
  then show ?thesis by (simp add: onTestFinish_absent)
next
  case (Some c)
  then have k: "suiteKey test \<in> fst ` set (suiteContext L)"
    by (metis map_of_eq_None_iff option.distinct(1))
  obtain c2 where "suiteContext (onTestFinish test result L) =
      AList.update (suiteKey test) c2 (suiteContext L)"
    using Some by (simp add: onTestFinish_def suiteKey_def Let_def)
  then show ?thesis using k by (simp add: dom_update insert_absorb)
qed

lemma runEvent_keys:
  assumes "runEvent e L = Inr L'"
  shows "fst ` set (suiteContext L') = fst ` set (suiteContext L)"
proof (cases e)
  case (TestBegin now test)
  with assms show ?thesis by (auto simp: onTestBegin_suiteContext)
next
  case (StepBegin now test stp)
  with assms have "onStepBegin now test stp L = Inr L'" by simp
  then have "suiteContext L' = suiteContext L" by (rule onStepBegin_suiteContext)
  then show ?thesis by simp
next
  case (StepEnd now test stp)
  with assms show ?thesis by (auto simp: onStepEnd_suiteContext)
next
  case (TestEnd now test result)
  with assms have "L' = onTestEnd now test result L" by simp
  then show ?thesis by (simp add: onTestEnd_suiteContext onTestFinish_keys)
qed

lemma runEvents_keys:
  "runEvents es L = Inr L' \<Longrightarrow> fst ` set (suiteContext L') = fst ` set (suiteContext L)"
proof (induction es arbitrary: L)
  case Nil
  then show ?case by simp
next
  case (Cons e es)
  from Cons.prems obtain L1 where e: "runEvent e L = Inr L1" and r: "runEvents es L1 = Inr L'"
    by (auto simp: andThen_def split: sum.splits)
  from Cons.IH [OF r] runEvent_keys [OF e] show ?case by simp
qed

lemma runEvent_steps_suiteContext:
  "runEvent (StepBegin now test stp) L = Inr L' \<Longrightarrow> suiteContext L' = suiteContext L"
  "runEvent (StepEnd now test stp) L = Inr L' \<Longrightarrow> suiteContext L' = suiteContext L"
  "runEvent (TestBegin now test) L = Inr L' \<Longrightarrow> suiteContext L' = suiteContext L"
  by (auto simp: onStepBegin_suiteContext onStepEnd_suiteContext onTestBegin_suiteContext)

subsection \<open>Grand totals\<close>

lemma fold_grandTotals:
  "fold (\<lambda>entry (totalTests, totalPassed, totalFailed, totalSkipped).
           (totalTests + suite_total (snd entry), totalPassed + suite_passed (snd entry),
            totalFailed + suite_failed (snd entry), totalSkipped + suite_skipped (snd entry)))
     entries (a, b, c, d) =
   (a + sum_list (map (\<lambda>e. suite_total (snd e)) entries),
    b + sum_list (map (\<lambda>e. suite_passed (snd e)) entries),
    c + sum_list (map (\<lambda>e. suite_failed (snd e)) entries),
    d + sum_list (map (\<lambda>e. suite_skipped (snd e)) entries))"
  by (induction entries arbitrary: a b c d) simp_all

lemma grandTotals_sum:
  "grandTotals entries =
     (sum_list (map (\<lambda>e. suite_total (snd e)) entries),
      sum_list (map (\<lambda>e. suite_passed (snd e)) entries),
      sum_list (map (\<lambda>e. suite_failed (snd e)) entries),
      sum_list (map (\<lambda>e. suite_skipped (snd e)) entries))"
  unfolding grandTotals_def fold_grandTotals by simp

section \<open>Claims about the counters of suites\<close>

text \<open>
  C5. In every state of the listener that holds a context for the suite of a test, so
  in every state reached after \<open>onTestBegin\<close> for the test and whatever step and test
  events followed it, \<open>onTestEnd\<close> for that test adds exactly 1 to the total of that
  suite and exactly 1 to exactly one of its buckets: \<open>passed\<close> for the status passed,
  \<open>skipped\<close> for skipped, \<open>failed\<close> for each of failed, timedOut and interrupted. The
  counters of all other suites stay as they were.
\<close>

theorem testEnd_counts:
  "(suiteCounters L (suiteKey test) = Some (t, p, f, s) \<longrightarrow>
      suiteCounters (onTestEnd now test result L) (suiteKey test) =
        Some (t + 1,
              p + (if res_status result = Passed then 1 else 0),
              f + (if res_status result = Failed \<or> res_status result = TimedOut \<or>
                      res_status result = Interrupted then 1 else 0),
              s + (if res_status result = Skipped then 1 else 0)) \<and>
      (\<forall>name. name \<noteq> suiteKey test \<longrightarrow>
         suiteCounters (onTestEnd now test result L) name = suiteCounters L name)) \<and>
   (runEvents es (onTestBegin now0 test L0) = Inr L \<and>
    suiteCounters L (suiteKey test) = Some (t, p, f, s) \<longrightarrow>
      suiteCounters (onTestEnd now test result L) (suiteKey test) =
        Some (t + 1,
              p + (if res_status result = Passed then 1 else 0),
              f + (if res_status result = Failed \<or> res_status result = TimedOut \<or>
                      res_status result = Interrupted then 1 else 0),
              s + (if res_status result = Skipped then 1 else 0)) \<and>
      (\<forall>name. name \<noteq> suiteKey test \<longrightarrow>
         suiteCounters (onTestEnd now test result L) name = suiteCounters L name)) \<and>
   (suiteCounters L0 (suiteKey test) = Some (t, p, f, s) \<longrightarrow>
      suiteCounters (onTestEnd now test result (onTestBegin now0 test L0)) (suiteKey test) =
        Some (t + 1,
              p + (if res_status result = Passed then 1 else 0),
              f + (if res_status result = Failed \<or> res_status result = TimedOut \<or>
                      res_status result = Interrupted then 1 else 0),
              s + (if res_status result = Skipped then 1 else 0)) \<and>
      (\<forall>name. name \<noteq> suiteKey test \<longrightarrow>
         suiteCounters (onTestEnd now test result (onTestBegin now0 test L0)) name =
           suiteCounters L0 name))"
proof -
  have b: "suiteCounters (onTestBegin now0 test L0) name = suiteCounters L0 name" for name
    by (simp add: suiteCounters_def onTestBegin_suiteContext)
  show ?thesis
    by (simp add: onTestEnd_counters b countTest_explicit)
qed

text \<open>
  C5, witness: suite \<open>Login\<close> begins, test \<open>A\<close> of \<open>Login\<close> begins, its step \<open>fill\<close>
  begins and ends, and the test ends passed: the counters of \<open>Login\<close> go from
  \<open>(0, 0, 0, 0)\<close> to total 1, passed 1. Ended timed out right after its begin, the test
  makes them total 1, failed 1.
\<close>

theorem testEnd_counts_witness:
  "suiteCounters (onTestSuiteStart 0 (Suite (js ''Login'') []) freshListener)
     (suiteKey exampleTest) = Some (0, 0, 0, 0) \<and>
   andThen
     (runEvents
        [StepBegin 2 exampleTest \<lparr>ts_title = js ''fill'', ts_error = None\<rparr>,
         StepEnd 3 exampleTest \<lparr>ts_title = js ''fill'', ts_error = None\<rparr>]
        (onTestBegin 1 exampleTest
           (onTestSuiteStart 0 (Suite (js ''Login'') []) freshListener)))
     (\<lambda>L. Inr (suiteCounters
        (onTestEnd 4 exampleTest \<lparr>res_status = Passed, res_error = None, res_attachments = []\<rparr> L)
        (js ''Login''))) = Inr (Some (1, 1, 0, 0)) \<and>
   suiteCounters
     (onTestEnd 2 exampleTest \<lparr>res_status = TimedOut, res_error = None, res_attachments = []\<rparr>
        (onTestBegin 1 exampleTest
           (onTestSuiteStart 0 (Suite (js ''Login'') []) freshListener)))
     (js ''Login'') = Some (1, 0, 1, 0)"
proof -
  define L0 where "L0 = onTestSuiteStart 0 (Suite (js ''Login'') []) freshListener"
  define L1 where "L1 = onTestBegin 1 exampleTest L0"
  define fill where "fill = \<lparr>ts_title = js ''fill'', ts_error = None\<rparr>"
  define passed where "passed = \<lparr>res_status = Passed, res_error = None, res_attachments = []\<rparr>"
  define timedOut where
    "timedOut = \<lparr>res_status = TimedOut, res_error = None, res_attachments = []\<rparr>"
  have k: "suiteKey exampleTest = js ''Login''"
    by (simp add: suiteKey_def exampleTest_def js_def)
  have h: "suiteCounters L0 (suiteKey exampleTest) = Some (0, 0, 0, 0)"
    unfolding k
    by (simp add: L0_def onTestSuiteStart_def freshListener_def suiteCounters_def counters_def
        Let_def js_def)
  have c: "map_of (executionContext L1) (getTestId exampleTest) \<noteq> None"
    by (simp add: L1_def onTestBegin_def onTestStart_def Let_def update_conv')
  obtain La where a: "runEvent (StepBegin 2 exampleTest fill) L1 = Inr La"
    using c by (auto simp: onStepBegin_def onTestBegin_def onTestStart_def L1_def Let_def
        update_conv' split: option.splits)
  define Lb where "Lb = onStepEnd 3 exampleTest fill La"
  have r: "runEvents [StepBegin 2 exampleTest fill, StepEnd 3 exampleTest fill] L1 = Inr Lb"
    using a by (simp add: andThen_def Lb_def)
  have "suiteContext Lb = suiteContext L0"
    using runEvent_steps_suiteContext(1) [OF a]
    by (simp add: Lb_def onStepEnd_suiteContext L1_def onTestBegin_suiteContext)
  then have hb: "suiteCounters Lb (suiteKey exampleTest) = Some (0, 0, 0, 0)"
    using h by (simp add: suiteCounters_def)
  note th = testEnd_counts [of Lb exampleTest 0 0 0 0 4 passed
      "[StepBegin 2 exampleTest fill, StepEnd 3 exampleTest fill]" 1 L0]
  have e1: "suiteCounters (onTestEnd 4 exampleTest passed Lb) (js ''Login'') = Some (1, 1, 0, 0)"
    using th [THEN conjunct2, THEN conjunct1] r hb unfolding k L1_def
    by (simp add: passed_def)
  have e2: "suiteCounters (onTestEnd 2 exampleTest timedOut (onTestBegin 1 exampleTest L0))
      (js ''Login'') = Some (1, 0, 1, 0)"
    using testEnd_counts [of L0 exampleTest 0 0 0 0 2 timedOut "[]" 1 L0,
        THEN conjunct2, THEN conjunct2] h unfolding k
    by (simp add: timedOut_def)
  have e1': "andThen
      (runEvents [StepBegin 2 exampleTest fill, StepEnd 3 exampleTest fill] L1)
      (\<lambda>L. Inr (suiteCounters (onTestEnd 4 exampleTest passed L) (js ''Login''))) =
      Inr (Some (1, 1, 0, 0))"
    unfolding r using e1 by (simp add: andThen_def)
  show ?thesis
    using h e1' e2 unfolding L0_def L1_def fill_def passed_def timedOut_def by (intro conjI)
qed

text \<open>
  C6, as amended. An \<open>onTestEnd\<close> for a key that no \<open>onTestBegin\<close> recorded changes no
  test context and makes no call on the logger (and, like every \<open>onTestEnd\<close>, throws
  nothing). It leaves the whole listener unchanged when there is no context for the
  suite of the test. When there is one, the test is counted in that suite as a begun
  test would be: total and one bucket go up by 1; no other suite changes.
\<close>

theorem testEnd_unbegun:
  "map_of (executionContext L) (getTestId test) = None \<Longrightarrow>
   executionContext (onTestEnd now test result L) = executionContext L \<and>
   loggerCalls (onTestEnd now test result L) = loggerCalls L \<and>
   (suiteCounters L (suiteKey test) = None \<longrightarrow> onTestEnd now test result L = L) \<and>
   (\<forall>name. name \<noteq> suiteKey test \<longrightarrow>
      suiteCounters (onTestEnd now test result L) name = suiteCounters L name) \<and>
   (\<forall>t p f s. suiteCounters L (suiteKey test) = Some (t, p, f, s) \<longrightarrow>
      suiteCounters (onTestEnd now test result L) (suiteKey test) =
        Some (t + 1,
              p + (if res_status result = Passed then 1 else 0),
              f + (if res_status result = Failed \<or> res_status result = TimedOut \<or>
                      res_status result = Interrupted then 1 else 0),
              s + (if res_status result = Skipped then 1 else 0)))"
proof -
  assume a: "map_of (executionContext L) (getTestId test) = None"
  have e: "onTestEnd now test result L = onTestFinish test result L"
    using a by (rule onTestEnd_unbegun)
  have n: "onTestFinish test result L = L" if "suiteCounters L (suiteKey test) = None"
    using that by (intro onTestFinish_absent) (simp add: suiteCounters_def)
  show ?thesis
    unfolding e using n
    by (simp add: onTestFinish_executionContext onTestFinish_counters countTest_explicit)
qed

text \<open>
  C6, witness: with suite \<open>Login\<close> begun and no test begun, the end of a test of the
  unknown suite \<open>Other\<close> leaves the listener as it was, and the end of test \<open>A\<close> of
  \<open>Login\<close> with status failed makes the counters of \<open>Login\<close> total 1, failed 1.
\<close>

theorem testEnd_unbegun_witness:
  "map_of (executionContext (onTestSuiteStart 0 (Suite (js ''Login'') []) freshListener))
     (getTestId \<lparr>tc_parentTitle = js ''Other'', tc_title = js ''A''\<rparr>) = None \<and>
   suiteCounters (onTestSuiteStart 0 (Suite (js ''Login'') []) freshListener)
     (suiteKey \<lparr>tc_parentTitle = js ''Other'', tc_title = js ''A''\<rparr>) = None \<and>
   onTestEnd 1 \<lparr>tc_parentTitle = js ''Other'', tc_title = js ''A''\<rparr>
     \<lparr>res_status = Failed, res_error = None, res_attachments = []\<rparr>
     (onTestSuiteStart 0 (Suite (js ''Login'') []) freshListener) =
     onTestSuiteStart 0 (Suite (js ''Login'') []) freshListener \<and>
   suiteCounters
     (onTestEnd 1 \<lparr>tc_parentTitle = js ''Login'', tc_title = js ''A''\<rparr>
        \<lparr>res_status = Failed, res_error = None, res_attachments = []\<rparr>
        (onTestSuiteStart 0 (Suite (js ''Login'') []) freshListener))
     (js ''Login'') = Some (1, 0, 1, 0)"
proof -
  define L where "L = onTestSuiteStart 0 (Suite (js ''Login'') []) freshListener"
  define other where "other = \<lparr>tc_parentTitle = js ''Other'', tc_title = js ''A''\<rparr>"
  define test where "test = \<lparr>tc_parentTitle = js ''Login'', tc_title = js ''A''\<rparr>"
  define result where "result = \<lparr>res_status = Failed, res_error = None, res_attachments = []\<rparr>"
  have ex: "executionContext L = []"
    by (simp add: L_def onTestSuiteStart_def freshListener_def Let_def)
  have u1: "map_of (executionContext L) (getTestId other) = None"
    and u2: "map_of (executionContext L) (getTestId test) = None" by (simp_all add: ex)
  have k1: "suiteKey other = js ''Other''" and k2: "suiteKey test = js ''Login''"
    by (simp_all add: suiteKey_def other_def test_def js_def)
  have c1: "suiteCounters L (suiteKey other) = None"
    and c2: "suiteCounters L (suiteKey test) = Some (0, 0, 0, 0)"
    unfolding k1 k2
    by (simp_all add: L_def onTestSuiteStart_def freshListener_def suiteCounters_def
        counters_def Let_def js_def)
  have a: "onTestEnd 1 other result L = L"
    using testEnd_unbegun [OF u1, of 1 result] c1 by blast
  have b: "suiteCounters (onTestEnd 1 test result L) (js ''Login'') = Some (1, 0, 1, 0)"
    using testEnd_unbegun [OF u2, of 1 result] c2 unfolding k2 by (simp add: result_def)
  show ?thesis
    using u1 c1 a b unfolding L_def other_def test_def result_def by blast
qed

text \<open>
  C6, counterexample to the claim as stated: suite \<open>Login\<close> has begun, test \<open>A\<close> of
  \<open>Login\<close> never began, and its end with status passed changes the counters of
  \<open>Login\<close> from \<open>(0, 0, 0, 0)\<close> to \<open>(1, 1, 0, 0)\<close>.
\<close>

theorem testEnd_unbegun_changes_counters:
  "map_of (executionContext (onTestSuiteStart 0 (Suite (js ''Login'') []) freshListener))
     (getTestId \<lparr>tc_parentTitle = js ''Login'', tc_title = js ''A''\<rparr>) = None \<and>
   suiteCounters (onTestSuiteStart 0 (Suite (js ''Login'') []) freshListener) (js ''Login'')
     = Some (0, 0, 0, 0) \<and>
   suiteCounters
     (onTestEnd 1 \<lparr>tc_parentTitle = js ''Login'', tc_title = js ''A''\<rparr>
        \<lparr>res_status = Passed, res_error = None, res_attachments = []\<rparr>
        (onTestSuiteStart 0 (Suite (js ''Login'') []) freshListener))
     (js ''Login'') = Some (1, 1, 0, 0)"
  by (simp add: onTestEnd_def onTestFinish_def onTestSuiteStart_def freshListener_def
      suiteCounters_def counters_def getTestId_def Let_def js_def)

text \<open>
  C10, as amended. \<open>initializeSuites\<close> adds a context exactly for every non-empty title
  in the suite tree, so on a fresh listener the key \<open>Root Suite\<close> exists if and only if
  some suite is itself titled \<open>Root Suite\<close>, and no sequence of test and step events
  creates it later. In every state where that key is absent, the end of a test whose
  parent suite has the empty title changes no suite context at all, and the grand
  totals that \<open>onEnd\<close> computes, the sums of the four counters over all suites, are
  what they were before it. In every state where a
  context stands under \<open>Root Suite\<close>, the end of such a test is counted in that context:
  its total and the bucket of the status go up by 1.
\<close>

theorem root_tests_uncounted:
  "fst ` set (suiteContext (initializeSuites now root L0)) =
     fst ` set (suiteContext L0) \<union> {title \<in> set (suiteTitles root). title \<noteq> []} \<and>
   (suiteContext L0 = [] \<and> js ''Root Suite'' \<notin> set (suiteTitles root) \<longrightarrow>
      map_of (suiteContext (initializeSuites now root L0)) (js ''Root Suite'') = None) \<and>
   (js ''Root Suite'' \<in> set (suiteTitles root) \<longrightarrow>
      map_of (suiteContext (initializeSuites now root L0)) (js ''Root Suite'') \<noteq> None) \<and>
   (tc_parentTitle test = [] \<and> map_of (suiteContext L) (js ''Root Suite'') = None \<longrightarrow>
      suiteContext (onTestEnd now2 test result L) = suiteContext L \<and>
      grandTotals (suiteContext (onTestEnd now2 test result L)) = grandTotals (suiteContext L)) \<and>
   (suiteContext L0 = [] \<and> js ''Root Suite'' \<notin> set (suiteTitles root) \<and>
    runEvents es (initializeSuites now root L0) = Inr L \<and> tc_parentTitle test = [] \<longrightarrow>
      suiteContext (onTestEnd now2 test result L) = suiteContext L \<and>
      grandTotals (suiteContext (onTestEnd now2 test result L)) = grandTotals (suiteContext L)) \<and>
   (tc_parentTitle test = [] \<and> suiteCounters L (js ''Root Suite'') = Some (t, p, f, s) \<longrightarrow>
      suiteCounters (onTestEnd now2 test result L) (js ''Root Suite'') =
        Some (t + 1,
              p + (if res_status result = Passed then 1 else 0),
              f + (if res_status result = Failed \<or> res_status result = TimedOut \<or>
                      res_status result = Interrupted then 1 else 0),
              s + (if res_status result = Skipped then 1 else 0))) \<and>
   (tc_parentTitle test = [] \<and> map_of (suiteContext L) (js ''Root Suite'') = None \<longrightarrow>
      suiteContext (onTestEnd now2 test result (onTestBegin now1 test L)) = suiteContext L \<and>
      grandTotals (suiteContext (onTestEnd now2 test result (onTestBegin now1 test L))) =
        grandTotals (suiteContext L)) \<and>
   grandTotals (suiteContext L) =
     (sum_list (map (\<lambda>e. suite_total (snd e)) (suiteContext L)),
      sum_list (map (\<lambda>e. suite_passed (snd e)) (suiteContext L)),
      sum_list (map (\<lambda>e. suite_failed (snd e)) (suiteContext L)),
      sum_list (map (\<lambda>e. suite_skipped (snd e)) (suiteContext L)))"
proof -
  have keys: "fst ` set (suiteContext (initializeSuites now root L0)) =
     fst ` set (suiteContext L0) \<union> {title \<in> set (suiteTitles root). title \<noteq> []}"
    by (rule initializeSuites_keys)
  have none: "map_of (suiteContext (initializeSuites now root L0)) (js ''Root Suite'') = None"
    if "suiteContext L0 = []" and "js ''Root Suite'' \<notin> set (suiteTitles root)"
    using that unfolding map_of_eq_None_iff keys by simp
  have some: "map_of (suiteContext (initializeSuites now root L0)) (js ''Root Suite'') \<noteq> None"
    if "js ''Root Suite'' \<in> set (suiteTitles root)"
    using that unfolding map_of_eq_None_iff keys by (simp add: js_def)
  have same: "suiteContext (onTestEnd n t r K) = suiteContext K"
    if "tc_parentTitle t = []" and "map_of (suiteContext K) (js ''Root Suite'') = None"
    for n t r K
  proof -
    have "map_of (suiteContext K) (suiteKey t) = None" using that by (simp add: suiteKey_def)
    then have "onTestFinish t r K = K" by (rule onTestFinish_absent)
    then show ?thesis by (simp add: onTestEnd_suiteContext)
  qed
  have run: "map_of (suiteContext L) (js ''Root Suite'') = None"
    if a: "suiteContext L0 = []" "js ''Root Suite'' \<notin> set (suiteTitles root)"
      and r: "runEvents es (initializeSuites now root L0) = Inr L"
    using none [OF a] unfolding map_of_eq_None_iff runEvents_keys [OF r] .
  have afterBegin: "suiteContext (onTestEnd now2 test result (onTestBegin now1 test L)) = suiteContext L"
    if "tc_parentTitle test = []" and "map_of (suiteContext L) (js ''Root Suite'') = None"
    using same [of test "onTestBegin now1 test L" now2 result] that
    by (simp add: onTestBegin_suiteContext)
  have counted: "suiteCounters (onTestEnd now2 test result L) (js ''Root Suite'') =
        Some (t + 1,
              p + (if res_status result = Passed then 1 else 0),
              f + (if res_status result = Failed \<or> res_status result = TimedOut \<or>
                      res_status result = Interrupted then 1 else 0),
              s + (if res_status result = Skipped then 1 else 0))"
    if "tc_parentTitle test = []" and "suiteCounters L (js ''Root Suite'') = Some (t, p, f, s)"
    using that by (simp add: onTestEnd_counters suiteKey_def countTest_explicit)
  show ?thesis
    using keys none some same [of test L now2 result] run afterBegin counted
    by (intro conjI impI grandTotals_sum) (simp_all (no_asm_simp))
qed

text \<open>
  C10, witness: the root suite with one child \<open>Login\<close>. No context is created under
  \<open>Root Suite\<close>; a test attached to the root begins, runs a step and ends, and the
  suite contexts and the grand totals \<open>(0, 0, 0, 0)\<close> are unchanged. With the child
  titled \<open>Root Suite\<close> instead, the context exists and a skipped test attached to the
  root makes its counters total 1, skipped 1.
\<close>

theorem root_tests_uncounted_witness:
  "suiteContext freshListener = [] \<and>
   js ''Root Suite'' \<notin> set (suiteTitles (Suite [] [Suite (js ''Login'') []])) \<and>
   map_of (suiteContext (initializeSuites 0 (Suite [] [Suite (js ''Login'') []]) freshListener))
     (js ''Root Suite'') = None \<and>
   fst ` set (suiteContext (initializeSuites 0 (Suite [] [Suite (js ''Login'') []]) freshListener))
     = {js ''Login''} \<and>
   tc_parentTitle \<lparr>tc_parentTitle = [], tc_title = js ''t''\<rparr> = [] \<and>
   andThen
     (runEvents
        [TestBegin 1 \<lparr>tc_parentTitle = [], tc_title = js ''t''\<rparr>,
         StepBegin 2 \<lparr>tc_parentTitle = [], tc_title = js ''t''\<rparr>
           \<lparr>ts_title = js ''fill'', ts_error = None\<rparr>,
         StepEnd 3 \<lparr>tc_parentTitle = [], tc_title = js ''t''\<rparr>
           \<lparr>ts_title = js ''fill'', ts_error = None\<rparr>]
        (initializeSuites 0 (Suite [] [Suite (js ''Login'') []]) freshListener))
     (\<lambda>L. Inr
        (suiteContext (onTestEnd 4 \<lparr>tc_parentTitle = [], tc_title = js ''t''\<rparr>
           \<lparr>res_status = Passed, res_error = None, res_attachments = []\<rparr> L) = suiteContext L,
         grandTotals (suiteContext (onTestEnd 4 \<lparr>tc_parentTitle = [], tc_title = js ''t''\<rparr>
           \<lparr>res_status = Passed, res_error = None, res_attachments = []\<rparr> L)))) =
     Inr (True, (0, 0, 0, 0)) \<and>
   suiteContext
     (onTestEnd 2 \<lparr>tc_parentTitle = [], tc_title = js ''t''\<rparr>
        \<lparr>res_status = Passed, res_error = None, res_attachments = []\<rparr>
        (onTestBegin 1 \<lparr>tc_parentTitle = [], tc_title = js ''t''\<rparr>
           (initializeSuites 0 (Suite [] [Suite (js ''Login'') []]) freshListener))) =
     suiteContext (initializeSuites 0 (Suite [] [Suite (js ''Login'') []]) freshListener) \<and>
   js ''Root Suite'' \<in> set (suiteTitles (Suite [] [Suite (js ''Root Suite'') []])) \<and>
   map_of (suiteContext
     (initializeSuites 0 (Suite [] [Suite (js ''Root Suite'') []]) freshListener))
     (js ''Root Suite'') \<noteq> None \<and>
   suiteCounters (initializeSuites 0 (Suite [] [Suite (js ''Root Suite'') []]) freshListener)
     (js ''Root Suite'') = Some (0, 0, 0, 0) \<and>
   suiteCounters
     (onTestEnd 4 \<lparr>tc_parentTitle = [], tc_title = js ''t''\<rparr>
        \<lparr>res_status = Skipped, res_error = None, res_attachments = []\<rparr>
        (initializeSuites 0 (Suite [] [Suite (js ''Root Suite'') []]) freshListener))
     (js ''Root Suite'') = Some (1, 0, 0, 1)"
proof -
  define root where "root = Suite [] [Suite (js ''Login'') []]"
  define named where "named = Suite [] [Suite (js ''Root Suite'') []]"
  define L1 where "L1 = initializeSuites 0 root freshListener"
  define L2 where "L2 = initializeSuites 0 named freshListener"
  define test where "test = \<lparr>tc_parentTitle = [], tc_title = js ''t''\<rparr>"
  define fill where "fill = \<lparr>ts_title = js ''fill'', ts_error = None\<rparr>"
  define passed where "passed = \<lparr>res_status = Passed, res_error = None, res_attachments = []\<rparr>"
  define skipped where
    "skipped = \<lparr>res_status = Skipped, res_error = None, res_attachments = []\<rparr>"
  let ?es = "[TestBegin 1 test, StepBegin 2 test fill, StepEnd 3 test fill]"
  have e: "suiteContext freshListener = []" by (simp add: freshListener_def)
  have t: "js ''Root Suite'' \<notin> set (suiteTitles root)" by (simp add: root_def js_def)
  have t2: "js ''Root Suite'' \<in> set (suiteTitles named)" by (simp add: named_def)
  have p: "tc_parentTitle test = []" by (simp add: test_def)
  have g: "grandTotals (suiteContext L1) = (0, 0, 0, 0)"
    by (simp add: L1_def root_def onTestSuiteStart_def freshListener_def grandTotals_def Let_def)
  \<comment> \<open>the events run without throwing\<close>
  define La where "La = onTestBegin 1 test L1"
  have "map_of (executionContext La) (getTestId test) \<noteq> None"
    by (simp add: La_def onTestBegin_def onTestStart_def Let_def update_conv')
  then obtain Lb where b: "runEvent (StepBegin 2 test fill) La = Inr Lb"
    by (auto simp: onStepBegin_def onTestBegin_def onTestStart_def La_def Let_def
        update_conv' split: option.splits)
  define Lc where "Lc = onStepEnd 3 test fill Lb"
  have r: "runEvents ?es L1 = Inr Lc"
    using b by (simp add: andThen_def Lc_def La_def)
  have sc: "suiteContext Lc = suiteContext L1"
    using runEvent_steps_suiteContext(1) [OF b]
    by (simp add: Lc_def onStepEnd_suiteContext La_def onTestBegin_suiteContext)
  \<comment> \<open>the theorem at this run\<close>
  note th = root_tests_uncounted [of 0 root freshListener test Lc 4 passed ?es 0 0 0 0 1]
  have n: "map_of (suiteContext L1) (js ''Root Suite'') = None"
    using th [THEN conjunct2, THEN conjunct1] e t unfolding L1_def by blast
  have "fst ` set (suiteContext L1) =
      fst ` set (suiteContext freshListener) \<union> {title \<in> set (suiteTitles root). title \<noteq> []}"
    using th [THEN conjunct1] unfolding L1_def .
  also have "\<dots> = {js ''Login''}" by (auto simp: e root_def js_def)
  finally have k: "fst ` set (suiteContext L1) = {js ''Login''}" .
  have "suiteContext (onTestEnd 4 test passed Lc) = suiteContext Lc \<and>
      grandTotals (suiteContext (onTestEnd 4 test passed Lc)) = grandTotals (suiteContext Lc)"
    using th [THEN conjunct2, THEN conjunct2, THEN conjunct2, THEN conjunct2, THEN conjunct1]
      e t r p unfolding L1_def by blast
  then have ev: "andThen (runEvents ?es L1)
      (\<lambda>L. Inr (suiteContext (onTestEnd 4 test passed L) = suiteContext L,
                 grandTotals (suiteContext (onTestEnd 4 test passed L)))) =
      Inr (True, (0, 0, 0, 0))"
    unfolding r by (simp add: andThen_def sc g)
  have old: "suiteContext (onTestEnd 2 test passed (onTestBegin 1 test L1)) = suiteContext L1"
    using root_tests_uncounted [of 0 root freshListener test L1 2 passed "[]" 0 0 0 0 1,
        THEN conjunct2, THEN conjunct2, THEN conjunct2, THEN conjunct2, THEN conjunct2,
        THEN conjunct2, THEN conjunct1] p n by blast
  \<comment> \<open>a suite titled Root Suite\<close>
  note th2 = root_tests_uncounted [of 0 named freshListener test L2 4 skipped "[]" 0 0 0 0 1]
  have s2: "map_of (suiteContext L2) (js ''Root Suite'') \<noteq> None"
    using th2 [THEN conjunct2, THEN conjunct2, THEN conjunct1] t2 unfolding L2_def by blast
  have c0: "suiteCounters L2 (js ''Root Suite'') = Some (0, 0, 0, 0)"
    by (simp add: L2_def named_def onTestSuiteStart_def freshListener_def suiteCounters_def
        counters_def Let_def js_def)
  have c1: "suiteCounters (onTestEnd 4 test skipped L2) (js ''Root Suite'') = Some (1, 0, 0, 1)"
    using th2 [THEN conjunct2, THEN conjunct2, THEN conjunct2, THEN conjunct2, THEN conjunct2,
        THEN conjunct1] p c0 by (simp add: skipped_def)
  show ?thesis
    using e t n k p ev old t2 s2 c0 c1
    unfolding L1_def L2_def root_def named_def test_def fill_def passed_def skipped_def
    by (intro conjI)
qed

text \<open>
  C10, counterexample to the claim as stated: when a suite is titled \<open>Root Suite\<close>, its
  context is the one that \<open>onTestFinish\<close> finds for a test attached to the root, and the
  test is counted there and in the grand totals.
\<close>

theorem root_suite_title_counts_root_tests:
  "tc_parentTitle \<lparr>tc_parentTitle = [], tc_title = js ''t''\<rparr> = [] \<and>
   suiteCounters (initializeSuites 0 (Suite [] [Suite (js ''Root Suite'') []]) freshListener)
     (js ''Root Suite'') = Some (0, 0, 0, 0) \<and>
   suiteCounters
     (onTestEnd 2 \<lparr>tc_parentTitle = [], tc_title = js ''t''\<rparr>
        \<lparr>res_status = Passed, res_error = None, res_attachments = []\<rparr>
        (onTestBegin 1 \<lparr>tc_parentTitle = [], tc_title = js ''t''\<rparr>
           (initializeSuites 0 (Suite [] [Suite (js ''Root Suite'') []]) freshListener)))
     (js ''Root Suite'') = Some (1, 1, 0, 0) \<and>
   grandTotals (suiteContext
     (onTestEnd 2 \<lparr>tc_parentTitle = [], tc_title = js ''t''\<rparr>
        \<lparr>res_status = Passed, res_error = None, res_attachments = []\<rparr>
        (onTestBegin 1 \<lparr>tc_parentTitle = [], tc_title = js ''t''\<rparr>
           (initializeSuites 0 (Suite [] [Suite (js ''Root Suite'') []]) freshListener)))) =
     (1, 1, 0, 0)"
  by (simp add: onTestEnd_suiteContext onTestBegin_suiteContext suiteCounters_def
      onTestFinish_def onTestSuiteStart_def freshListener_def counters_def grandTotals_def
      Let_def js_def)

section \<open>Claims about steps\<close>

lemma findIndex_Some:
  "findIndex P xs = Some i \<longleftrightarrow> i < length xs \<and> P (xs ! i) \<and> (\<forall>j<i. \<not> P (xs ! j))"
proof (induction xs arbitrary: i)
  case Nil
  show ?case by simp
next
  case (Cons x xs)
  show ?case
  proof (cases "P x")
    case True
    then show ?thesis by (cases i) auto
  next
    case False
    show ?thesis
    proof (cases i)
      case 0
      with False show ?thesis by (simp split: option.splits)
    next
      case (Suc k)
      have "(\<forall>j<Suc k. \<not> P ((x # xs) ! j)) \<longleftrightarrow> (\<forall>j<k. \<not> P (xs ! j))"
        using False by (auto simp: less_Suc_eq_0_disj)
      with False Suc Cons.IH [of k] show ?thesis by (auto split: option.splits)
    qed
  qed
qed

lemma endStep_fields:
  "step_title (endStep now stp s) = step_title s"
  "step_startTime (endStep now stp s) = step_startTime s"
  "step_endTime (endStep now stp s) = Some now"
  "step_duration (endStep now stp s) = Some (now - step_startTime s)"
  "step_status (endStep now stp s) = (if ts_error stp = None then StepPassed else StepFailed)"
  "step_error (endStep now stp s) =
     (case ts_error stp of None \<Rightarrow> step_error s | Some e \<Rightarrow> err_message e)"
  by (simp_all add: endStep_def Let_def split: option.splits)

text \<open>
  C1, as amended. When the context of the test holds one or more open steps with the
  title of the ending step, \<open>onStepEnd\<close> sets end time, duration, status and error of
  the open step with that title that stands first in the step list, which is the one
  begun earliest since \<open>onStepBegin\<close> appends; every other step, so every open step with
  that title begun later, stays as it was.
\<close>

theorem stepEnd_closes_first_open:
  "map_of (executionContext L) (getTestId test) = Some context \<Longrightarrow>
   test_steps context = Some steps \<Longrightarrow>
   i < length steps \<Longrightarrow> openStep (ts_title stp) (steps ! i) \<Longrightarrow>
   \<forall>j<i. \<not> openStep (ts_title stp) (steps ! j) \<Longrightarrow>
   map_of (executionContext (onStepEnd now test stp L)) (getTestId test) =
     Some (context\<lparr>test_steps := Some (steps[i := endStep now stp (steps ! i)])\<rparr>) \<and>
   step_endTime (endStep now stp (steps ! i)) = Some now \<and>
   step_duration (endStep now stp (steps ! i)) = Some (now - step_startTime (steps ! i)) \<and>
   step_status (endStep now stp (steps ! i)) =
     (if ts_error stp = None then StepPassed else StepFailed) \<and>
   step_error (endStep now stp (steps ! i)) =
     (case ts_error stp of None \<Rightarrow> step_error (steps ! i) | Some e \<Rightarrow> err_message e) \<and>
   (\<forall>k. k \<noteq> i \<longrightarrow> (steps[i := endStep now stp (steps ! i)]) ! k = steps ! k)"
proof -
  assume c: "map_of (executionContext L) (getTestId test) = Some context"
    and s: "test_steps context = Some steps"
    and i: "i < length steps" "openStep (ts_title stp) (steps ! i)"
      "\<forall>j<i. \<not> openStep (ts_title stp) (steps ! j)"
  have "findIndex (openStep (ts_title stp)) steps = Some i"
    using i by (simp add: findIndex_Some)
  then have f: "findIndex (\<lambda>s. step_title s = ts_title stp \<and> step_endTime s = None) steps = Some i"
    by (simp add: openStep_def [abs_def])
  have "map_of (executionContext (onStepEnd now test stp L)) (getTestId test) =
     Some (context\<lparr>test_steps := Some (steps[i := endStep now stp (steps ! i)])\<rparr>)"
    by (simp add: onStepEnd_def Let_def c s f update_conv')
  then show ?thesis by (simp add: endStep_fields)
qed

text \<open>
  C1, witness: three steps titled \<open>fill\<close>, the first ended, the other two open and begun
  at times 3 and 4. The end of \<open>fill\<close> with an error at time 9 closes the step begun at
  3 as failed and leaves the step begun at 4 open.
\<close>

theorem stepEnd_closes_first_open_witness:
  "map_of (executionContext (freshListener\<lparr>executionContext :=
      [(getTestId exampleTest,
        exampleContext [exampleStep 1 (Some 2), exampleStep 3 None, exampleStep 4 None])]\<rparr>))
     (getTestId exampleTest) =
     Some (exampleContext [exampleStep 1 (Some 2), exampleStep 3 None, exampleStep 4 None]) \<and>
   \<not> openStep (js ''fill'') (exampleStep 1 (Some 2)) \<and>
   openStep (js ''fill'') (exampleStep 3 None) \<and>
   openStep (js ''fill'') (exampleStep 4 None) \<and>
   map_of (executionContext
     (onStepEnd 9 exampleTest
        \<lparr>ts_title = js ''fill'', ts_error = Some \<lparr>err_message = Some (js ''boom'')\<rparr>\<rparr>
        (freshListener\<lparr>executionContext :=
          [(getTestId exampleTest,
            exampleContext [exampleStep 1 (Some 2), exampleStep 3 None, exampleStep 4 None])]\<rparr>)))
     (getTestId exampleTest) =
     Some (exampleContext
       [exampleStep 1 (Some 2),
        (exampleStep 3 (Some 9))\<lparr>step_status := StepFailed, step_error := Some (js ''boom'')\<rparr>,
        exampleStep 4 None])"
proof -
  define steps where "steps = [exampleStep 1 (Some 2), exampleStep 3 None, exampleStep 4 None]"
  define L where "L = freshListener\<lparr>executionContext := [(getTestId exampleTest, exampleContext steps)]\<rparr>"
  define stp where "stp = \<lparr>ts_title = js ''fill'', ts_error = Some \<lparr>err_message = Some (js ''boom'')\<rparr>\<rparr>"
  have c: "map_of (executionContext L) (getTestId exampleTest) = Some (exampleContext steps)"
    by (simp add: L_def)
  have s: "test_steps (exampleContext steps) = Some steps" by (simp add: exampleContext_def)
  have i: "(1::nat) < length steps" by (simp add: steps_def)
  have o0: "\<not> openStep (js ''fill'') (exampleStep 1 (Some 2))"
    and o1: "openStep (js ''fill'') (exampleStep 3 None)"
    and o2: "openStep (js ''fill'') (exampleStep 4 None)"
    by (simp_all add: openStep_def exampleStep_def)
  have t: "ts_title stp = js ''fill''" by (simp add: stp_def)
  have a: "openStep (ts_title stp) (steps ! 1)" unfolding t using o1 by (simp add: steps_def)
  have b: "\<forall>j<1. \<not> openStep (ts_title stp) (steps ! j)"
    unfolding t using o0 by (simp add: steps_def)
  have e: "endStep 9 stp (exampleStep 3 None) =
      (exampleStep 3 (Some 9))\<lparr>step_status := StepFailed, step_error := Some (js ''boom'')\<rparr>"
    by (simp add: endStep_def exampleStep_def stp_def Let_def)
  have "map_of (executionContext (onStepEnd 9 exampleTest stp L)) (getTestId exampleTest) =
     Some ((exampleContext steps)\<lparr>test_steps := Some (steps[1 := endStep 9 stp (steps ! 1)])\<rparr>)"
    using stepEnd_closes_first_open [OF c s i a b, of 9] by blast
  also have "(exampleContext steps)\<lparr>test_steps := Some (steps[1 := endStep 9 stp (steps ! 1)])\<rparr> =
     exampleContext [exampleStep 1 (Some 2),
        (exampleStep 3 (Some 9))\<lparr>step_status := StepFailed, step_error := Some (js ''boom'')\<rparr>,
        exampleStep 4 None]"
    by (simp add: steps_def exampleContext_def e)
  finally show ?thesis
    using c o0 o1 o2 unfolding L_def steps_def stp_def by blast
qed

text \<open>
  C1, counterexample to the claim as stated: a test begins, two steps titled \<open>fill\<close>
  begin at times 1 and 2, and \<open>fill\<close> ends at time 5. The step begun at 1 receives the
  end time; the most recently begun open step, begun at 2, is still open.
\<close>

theorem stepEnd_leaves_latest_open:
  "andThen
     (andThen
        (onStepBegin 1 \<lparr>tc_parentTitle = js ''Login'', tc_title = js ''A''\<rparr>
           \<lparr>ts_title = js ''fill'', ts_error = None\<rparr>
           (onTestBegin 0 \<lparr>tc_parentTitle = js ''Login'', tc_title = js ''A''\<rparr> freshListener))
        (onStepBegin 2 \<lparr>tc_parentTitle = js ''Login'', tc_title = js ''A''\<rparr>
           \<lparr>ts_title = js ''fill'', ts_error = None\<rparr>))
     (\<lambda>L. Inr (map_option test_steps
        (map_of (executionContext
           (onStepEnd 5 \<lparr>tc_parentTitle = js ''Login'', tc_title = js ''A''\<rparr>
              \<lparr>ts_title = js ''fill'', ts_error = None\<rparr> L))
           (getTestId \<lparr>tc_parentTitle = js ''Login'', tc_title = js ''A''\<rparr>)))) =
   Inr (Some (Some
     [\<lparr>step_title = js ''fill'', step_startTime = 1, step_endTime = Some 5,
        step_duration = Some 4, step_status = StepPassed, step_error = None\<rparr>,
      \<lparr>step_title = js ''fill'', step_startTime = 2, step_endTime = None,
        step_duration = None, step_status = StepPassed, step_error = None\<rparr>]))"
  by (simp add: andThen_def onStepBegin_def onTestBegin_def onTestStart_def onStepEnd_def
      endStep_def getTestId_def freshListener_def loggerInfo_def emit_def Let_def)

section \<open>The summary of suites\<close>

lemma suiteSummary_calls:
  "loggerCalls (suiteSummary now e L) =
     loggerCalls L @
     [CallInfo (suiteCompletedLine (fst e)) MetaUndefined,
      CallInfo (suiteTotalsLine (snd e) (now - suite_startTime (snd e))) MetaUndefined] @
     (if suite_failed (snd e) > 0
      then [CallInfo (suiteFailedLine (suite_failed (snd e))) (MetaString (js ''warn''))]
      else []) @
     [CallInfo [] MetaUndefined]"
  by (simp add: suiteSummary_def Let_def suiteTotalsLine_def)

lemma newCalls_suiteSummary:
  "newCalls (suiteSummary now e) L =
     [CallInfo (suiteCompletedLine (fst e)) MetaUndefined,
      CallInfo (suiteTotalsLine (snd e) (now - suite_startTime (snd e))) MetaUndefined] @
     (if suite_failed (snd e) > 0
      then [CallInfo (suiteFailedLine (suite_failed (snd e))) (MetaString (js ''warn''))]
      else []) @
     [CallInfo [] MetaUndefined]"
  by (simp add: newCalls_def suiteSummary_calls)

lemma fold_suiteSummary_calls:
  "loggerCalls (fold (suiteSummary now) es L) =
     loggerCalls L @ concat (map (\<lambda>e. newCalls (suiteSummary now e) L0) es)"
proof (induction es arbitrary: L)
  case Nil
  show ?case by simp
next
  case (Cons e es)
  have "newCalls (suiteSummary now e) L0 = newCalls (suiteSummary now e) L"
    by (simp only: newCalls_suiteSummary)
  moreover have "loggerCalls (suiteSummary now e L) = loggerCalls L @ newCalls (suiteSummary now e) L"
    by (simp only: newCalls_suiteSummary suiteSummary_calls)
  ultimately show ?case using Cons.IH [of "suiteSummary now e L"] by simp
qed

lemma newCalls_onTestSuiteFinish:
  "newCalls (onTestSuiteFinish now) L =
     (if suiteContext L = []
      then [CallInfo ([0xD83D, 0xDCCB] @ js '' No test suites found'') MetaUndefined]
      else if filter (\<lambda>e. suite_total (snd e) > 0) (suiteContext L) = []
      then [CallInfo ([0xD83D, 0xDCCB] @ js '' No suites with tests found'') MetaUndefined]
      else [CallInfo ([0xD83D, 0xDCCB] @ js '' Test Suite Summary:'') MetaUndefined,
            CallInfo singleLine MetaUndefined] @
           concat (map (\<lambda>e. newCalls (suiteSummary now e) L)
             (filter (\<lambda>e. suite_total (snd e) > 0) (suiteContext L))))"
  by (simp add: newCalls_def onTestSuiteFinish_def Let_def fold_suiteSummary_calls [of _ _ _ L])

lemma suiteCompletedLine_inject: "suiteCompletedLine a = suiteCompletedLine b \<longleftrightarrow> a = b"
  by (simp add: suiteCompletedLine_def)

lemma suiteCompletedLine_singleLine: "suiteCompletedLine n \<noteq> singleLine"
proof
  assume "suiteCompletedLine n = singleLine"
  then have "hd (suiteCompletedLine n) = hd singleLine" by simp
  then show False by (simp add: suiteCompletedLine_def singleLine_def)
qed

lemma suiteCompletedLine_other:
  "suiteCompletedLine n \<noteq> [0xD83D, 0xDCCB] @ js '' No suites with tests found''"
  "suiteCompletedLine n \<noteq> [0xD83D, 0xDCCB] @ js '' Test Suite Summary:''"
  "suiteCompletedLine n \<noteq> suiteTotalsLine c d"
  "suiteCompletedLine n \<noteq> []"
  by (simp_all add: suiteCompletedLine_def suiteTotalsLine_def js_def)

lemmas suiteCompletedLine_other_Cons =
  suiteCompletedLine_other [unfolded append_Cons append_Nil]

lemma completed_in_block:
  "CallInfo (suiteCompletedLine n) MetaUndefined \<in> set (newCalls (suiteSummary now e) L) \<longleftrightarrow>
     fst e = n"
  by (auto simp: newCalls_suiteSummary suiteCompletedLine_inject suiteCompletedLine_other
      suiteCompletedLine_singleLine)

lemma warning_in_block:
  "(\<exists>m. CallInfo m (MetaString (js ''warn'')) \<in> set (newCalls (suiteSummary now e) L)) \<longleftrightarrow>
     suite_failed (snd e) > 0"
  by (auto simp: newCalls_suiteSummary)


lemma runCall_log:
  "\<exists>m md. \<forall>st. runCall toISO now c st =
     log toISO now (js ''PlaywrightTestListener'') INFO m md st"
  by (cases c) (auto simp: info_def step_def Let_def)

lemma replay_filtered:
  "\<not> passesLevel (globalConfig st) INFO \<Longrightarrow> replay toISO now calls st = st"
proof (induction calls)
  case Nil
  show ?case by (simp add: replay_def)
next
  case (Cons c calls)
  obtain m md where "runCall toISO now c st =
      log toISO now (js ''PlaywrightTestListener'') INFO m md st"
    using runCall_log by blast
  then have "runCall toISO now c st = st" using Cons.prems by (simp add: log_filtered)
  with Cons show ?case by (simp add: replay_def)
qed

lemma replay_console:
  "passesLevel (globalConfig st) INFO \<Longrightarrow>
   length (console (replay toISO now calls st)) = length (console st) + length calls"
proof (induction calls arbitrary: st)
  case Nil
  show ?case by (simp add: replay_def)
next
  case (Cons c calls)
  obtain m md where r: "runCall toISO now c st =
      log toISO now (js ''PlaywrightTestListener'') INFO m md st"
    using runCall_log by blast
  have cfg: "globalConfig (runCall toISO now c st) = globalConfig st"
    unfolding r by (rule log_globalConfig)
  have one: "length (console (runCall toISO now c st)) = length (console st) + 1"
    unfolding r using Cons.prems by (simp add: log_console)
  have "replay toISO now (c # calls) st = replay toISO now calls (runCall toISO now c st)"
    by (simp add: replay_def)
  then show ?case using Cons.IH [of "runCall toISO now c st"] Cons.prems cfg one by simp
qed

section \<open>The line for failed tests\<close>

subsection \<open>Decimal numerals\<close>

declare showNat.simps [simp del]

lemma unat_digit: "d < 10 \<Longrightarrow> unat (of_nat (48 + d) :: 16 word) = 48 + d"
  by (simp add: unat_of_nat del: of_nat_add)

lemma showNat_small: "n < 10 \<Longrightarrow> showNat n = [of_nat (48 + n)]"
  by (subst showNat.simps) (simp del: of_nat_add)

lemma showNat_large:
  "\<not> n < 10 \<Longrightarrow> showNat n = showNat (n div 10) @ [of_nat (48 + n mod 10)]"
  by (subst showNat.simps) (simp del: of_nat_add)

lemma readNat_snoc: "readNat (xs @ [c]) = 10 * readNat xs + (unat c - 48)"
  by (simp add: readNat_def)

lemma readNat_single: "readNat [c] = unat c - 48"
  by (simp add: readNat_def)

lemma readNat_showNat: "readNat (showNat n) = n"
proof (induction n rule: showNat.induct)
  case (1 n)
  show ?case
  proof (cases "n < 10")
    case True
    then show ?thesis
      by (simp add: showNat_small readNat_single unat_digit del: of_nat_add)
  next
    case False
    have d: "n mod 10 < 10" by simp
    have "readNat (showNat n) = 10 * readNat (showNat (n div 10)) + n mod 10"
      by (simp add: showNat_large [OF False] readNat_snoc unat_digit [OF d] del: of_nat_add)
    also have "\<dots> = 10 * (n div 10) + n mod 10" using "1.IH" [OF False] by simp
    finally show ?thesis by simp
  qed
qed


lemma showNat_inject: "showNat a = showNat b \<longleftrightarrow> a = b"
  by (metis readNat_showNat)

lemma whitespace_not_digit: "isWhiteSpace c \<Longrightarrow> unat c < 48 \<or> 57 < unat c"
  unfolding isWhiteSpace_def word_le_nat_alt by auto

lemma digit_not_whitespace: "d < 10 \<Longrightarrow> \<not> isWhiteSpace (of_nat (48 + d) :: 16 word)"
proof
  assume d: "d < 10" and "isWhiteSpace (of_nat (48 + d) :: 16 word)"
  from this(2) have "unat (of_nat (48 + d) :: 16 word) < 48 \<or> 57 < unat (of_nat (48 + d) :: 16 word)"
    by (rule whitespace_not_digit)
  then show False unfolding unat_digit [OF d] using d by simp
qed

lemma showNat_not_whitespace: "c \<in> set (showNat n) \<Longrightarrow> \<not> isWhiteSpace c"
proof (induction n arbitrary: c rule: showNat.induct)
  case (1 n)
  show ?case
  proof (cases "n < 10")
    case True
    with "1.prems" have "c = of_nat (48 + n)" by (simp add: showNat_small del: of_nat_add)
    with True show ?thesis by (simp only: digit_not_whitespace not_False_eq_True)
  next
    case False
    have d: "n mod 10 < 10" by simp
    from "1.prems" have "c \<in> set (showNat (n div 10)) \<or> c = of_nat (48 + n mod 10)"
      by (auto simp add: showNat_large [OF False] simp del: of_nat_add)
    then show ?thesis
    proof
      assume "c \<in> set (showNat (n div 10))"
      then show ?thesis using False by (rule "1.IH" [rotated])
    next
      assume "c = of_nat (48 + n mod 10)"
      with digit_not_whitespace [OF d] show ?thesis by blast
    qed
  qed
qed

lemma showNat_nonempty: "showNat n \<noteq> []"
  by (subst showNat.simps) simp


subsection \<open>Its text and where it appears\<close>

lemma noSpaceRun_append:
  "noSpaceRun (xs @ ys) \<longleftrightarrow>
     noSpaceRun xs \<and> noSpaceRun ys \<and>
     (xs \<noteq> [] \<and> ys \<noteq> [] \<longrightarrow> \<not> (last xs = 0x20 \<and> hd ys = 0x20))"
  by (induction xs rule: noSpaceRun.induct) (auto simp: noSpaceRun_Cons)

lemma noSpaceRun_no_space: "0x20 \<notin> set xs \<Longrightarrow> noSpaceRun xs"
  by (induction xs rule: noSpaceRun.induct) auto

lemma onlyPlainSpaces_append:
  "onlyPlainSpaces (xs @ ys) \<longleftrightarrow> onlyPlainSpaces xs \<and> onlyPlainSpaces ys"
  by (auto simp: onlyPlainSpaces_def)

lemma showNat_edges:
  "\<not> isWhiteSpace (hd (showNat n))" "\<not> isWhiteSpace (last (showNat n))"
  "hd (showNat n) \<noteq> 0x20" "last (showNat n) \<noteq> 0x20"
proof -
  have "hd (showNat n) \<in> set (showNat n)" "last (showNat n) \<in> set (showNat n)"
    using showNat_nonempty [of n] by simp_all
  then show "\<not> isWhiteSpace (hd (showNat n))" "\<not> isWhiteSpace (last (showNat n))"
    by (simp_all only: showNat_not_whitespace not_False_eq_True)
  then show "hd (showNat n) \<noteq> 0x20" "last (showNat n) \<noteq> 0x20"
    using isWhiteSpace_space by metis+
qed

lemma showNat_plain: "onlyPlainSpaces (showNat n)" "noSpaceRun (showNat n)"
proof -
  show "onlyPlainSpaces (showNat n)"
    using showNat_not_whitespace [of _ n] by (auto simp: onlyPlainSpaces_def)
  have "0x20 \<notin> set (showNat n)"
    using showNat_not_whitespace [of "0x20" n] isWhiteSpace_space by blast
  then show "noSpaceRun (showNat n)" by (rule noSpaceRun_no_space)
qed

lemma normalForm_suiteFailedLine: "normalForm (suiteFailedLine n)"
proof -
  define p :: jsstring where "p = [0x274C] @ js '' Suite had ''"
  define q :: jsstring where "q = js '' failed test(s)''"
  have p: "onlyPlainSpaces p" "noSpaceRun p" "last p = 0x20" "hd p = 0x274C" "p \<noteq> []"
    by (simp_all add: p_def onlyPlainSpaces_def isWhiteSpace_def js_def)
  have q: "onlyPlainSpaces q" "noSpaceRun q" "hd q = 0x20" "last q = 0x29" "q \<noteq> []"
    by (simp_all add: q_def onlyPlainSpaces_def isWhiteSpace_def js_def)
  have line: "suiteFailedLine n = p @ showNat n @ q"
    by (simp add: suiteFailedLine_def p_def q_def)
  have d: "showNat n \<noteq> []" by (rule showNat_nonempty)
  have a: "onlyPlainSpaces (suiteFailedLine n)"
    unfolding line onlyPlainSpaces_append using p(1) q(1) showNat_plain(1) [of n] by blast
  have "noSpaceRun (showNat n @ q)"
    unfolding noSpaceRun_append using q(2) showNat_plain(2) [of n] showNat_edges(4) [of n]
    by blast
  moreover have "hd (showNat n @ q) \<noteq> 0x20" using d showNat_edges(3) [of n] by simp
  ultimately have b: "noSpaceRun (suiteFailedLine n)"
    unfolding line noSpaceRun_append [of p] using p(2) by blast
  have h: "hd (suiteFailedLine n) = 0x274C" unfolding line using p(4,5) by simp
  have l: "last (suiteFailedLine n) = 0x29" unfolding line using q(4,5) by simp
  have c: "noEdgeSpace (suiteFailedLine n)"
    unfolding noEdgeSpace_def h l by (simp add: isWhiteSpace_def)
  show ?thesis unfolding normalForm_def using a b c by blast
qed

lemma normalizeMessage_suiteFailedLine:
  "int (length (suiteFailedLine n)) \<le> m \<Longrightarrow>
   normalizeMessage m (suiteFailedLine n) = suiteFailedLine n"
  by (rule normalizeMessage_fixed [OF normalForm_suiteFailedLine]) linarith

lemma suiteFailedLine_inject: "suiteFailedLine a = suiteFailedLine b \<longleftrightarrow> a = b"
  by (simp add: suiteFailedLine_def showNat_inject)

lemma suiteFailedLine_hd: "hd (suiteFailedLine n) = 0x274C"
  by (simp add: suiteFailedLine_def)

lemma suiteFailedLine_other:
  "suiteFailedLine k \<noteq> suiteCompletedLine n"
  "suiteFailedLine k \<noteq> suiteTotalsLine c d"
  "suiteFailedLine k \<noteq> []"
  "suiteFailedLine k \<noteq> singleLine"
  "suiteFailedLine k \<noteq> [0xD83D, 0xDCCB] @ js '' Test Suite Summary:''"
  "suiteFailedLine k \<noteq> [0xD83D, 0xDCCB] @ js '' No suites with tests found''"
  "suiteFailedLine k \<noteq> [0xD83D, 0xDCCB] @ js '' No test suites found''"
proof -
  have ne: "suiteFailedLine k \<noteq> s" if "hd s \<noteq> 0x274C" for s
    using that suiteFailedLine_hd [of k] by auto
  show "suiteFailedLine k \<noteq> suiteCompletedLine n"
    by (rule ne) (simp add: suiteCompletedLine_def)
  show "suiteFailedLine k \<noteq> suiteTotalsLine c d"
    by (rule ne) (simp add: suiteTotalsLine_def)
  show "suiteFailedLine k \<noteq> []" by (simp add: suiteFailedLine_def)
  show "suiteFailedLine k \<noteq> singleLine" by (rule ne) (simp add: singleLine_def)
  show "suiteFailedLine k \<noteq> [0xD83D, 0xDCCB] @ js '' Test Suite Summary:''"
    by (rule ne) simp
  show "suiteFailedLine k \<noteq> [0xD83D, 0xDCCB] @ js '' No suites with tests found''"
    by (rule ne) simp
  show "suiteFailedLine k \<noteq> [0xD83D, 0xDCCB] @ js '' No test suites found''"
    by (rule ne) simp
qed

lemmas suiteFailedLine_other_Cons = suiteFailedLine_other [unfolded append_Cons append_Nil]

lemma failed_in_block:
  "CallInfo (suiteFailedLine k) md \<in> set (newCalls (suiteSummary now e) L) \<longleftrightarrow>
     0 < suite_failed (snd e) \<and> k = suite_failed (snd e) \<and> md = MetaString (js ''warn'')"
  by (auto simp: newCalls_suiteSummary suiteFailedLine_other suiteFailedLine_inject)

lemma failed_in_summary:
  "CallInfo (suiteFailedLine k) md \<in> set (newCalls (onTestSuiteFinish now) L) \<longleftrightarrow>
     (\<exists>e \<in> set (suiteContext L).
        0 < suite_total (snd e) \<and> suite_failed (snd e) = k \<and> 0 < k \<and>
        md = MetaString (js ''warn''))"
proof (cases "filter (\<lambda>e. suite_total (snd e) > 0) (suiteContext L) = []")
  case True
  then have "\<not> (\<exists>e \<in> set (suiteContext L). 0 < suite_total (snd e))"
    by (simp add: filter_empty_conv)
  then show ?thesis
    using True
    by (auto simp: newCalls_onTestSuiteFinish suiteFailedLine_other suiteFailedLine_other_Cons)
next
  case False
  then have ne: "suiteContext L \<noteq> []" by auto
  have "CallInfo (suiteFailedLine k) md \<in> set (newCalls (onTestSuiteFinish now) L) \<longleftrightarrow>
      (\<exists>e \<in> set (filter (\<lambda>e. suite_total (snd e) > 0) (suiteContext L)).
         CallInfo (suiteFailedLine k) md \<in> set (newCalls (suiteSummary now e) L))"
    using False ne
    by (simp add: newCalls_onTestSuiteFinish suiteFailedLine_other suiteFailedLine_other_Cons)
  also have "\<dots> \<longleftrightarrow> (\<exists>e \<in> set (suiteContext L).
        0 < suite_total (snd e) \<and> suite_failed (snd e) = k \<and> 0 < k \<and>
        md = MetaString (js ''warn''))"
    unfolding failed_in_block
  proof
    assume "\<exists>e \<in> set (filter (\<lambda>e. suite_total (snd e) > 0) (suiteContext L)).
        0 < suite_failed (snd e) \<and> k = suite_failed (snd e) \<and> md = MetaString (js ''warn'')"
    then obtain e where "e \<in> set (suiteContext L)" "0 < suite_total (snd e)"
      "0 < suite_failed (snd e)" "k = suite_failed (snd e)" "md = MetaString (js ''warn'')"
      by auto
    then show "\<exists>e \<in> set (suiteContext L).
        0 < suite_total (snd e) \<and> suite_failed (snd e) = k \<and> 0 < k \<and>
        md = MetaString (js ''warn'')"
      by (intro bexI [of _ e]) simp_all
  next
    assume "\<exists>e \<in> set (suiteContext L).
        0 < suite_total (snd e) \<and> suite_failed (snd e) = k \<and> 0 < k \<and>
        md = MetaString (js ''warn'')"
    then obtain e where "e \<in> set (suiteContext L)" "0 < suite_total (snd e)"
      "suite_failed (snd e) = k" "0 < k" "md = MetaString (js ''warn'')"
      by auto
    then show "\<exists>e \<in> set (filter (\<lambda>e. suite_total (snd e) > 0) (suiteContext L)).
        0 < suite_failed (snd e) \<and> k = suite_failed (snd e) \<and> md = MetaString (js ''warn'')"
      by (intro bexI [of _ e]) simp_all
  qed
  finally show ?thesis .
qed

lemma failed_line_console:
  assumes "passesLevel (globalConfig st) INFO"
    and "int (length (suiteFailedLine k)) \<le> cfg_maxLineLength (globalConfig st)"
  shows "console (runCall toISO t (CallInfo (suiteFailedLine k) (MetaString (js ''warn''))) st) =
     console st @ [formatMessage toISO (globalConfig st)
       \<lparr>entry_timestamp = t, entry_level = INFO, entry_message = suiteFailedLine k,
        entry_context = js ''PlaywrightTestListener'',
        entry_metadata = MetaString (js ''warn'')\<rparr>]"
  using assms by (simp add: info_def log_console normalizeMessage_suiteFailedLine)


lemma completed_in_summary:
  assumes d: "distinct (map fst (suiteContext L))" and m: "(name, c) \<in> set (suiteContext L)"
  shows "CallInfo (suiteCompletedLine name) MetaUndefined \<in>
        set (newCalls (onTestSuiteFinish now) L) \<longleftrightarrow> suite_total c > 0"
proof -
  let ?es = "filter (\<lambda>e. suite_total (snd e) > 0) (suiteContext L)"
  have ne: "suiteContext L \<noteq> []" using m by auto
  have in_es: "(\<exists>e \<in> set ?es. fst e = name) \<longleftrightarrow> suite_total c > 0"
  proof
    assume "\<exists>e \<in> set ?es. fst e = name"
    then obtain c' where c: "(name, c') \<in> set (suiteContext L)" "suite_total c' > 0" by auto
    from d m c(1) have "c' = c" by (meson eq_key_imp_eq_value)
    with c(2) show "suite_total c > 0" by simp
  next
    assume "suite_total c > 0"
    with m have "(name, c) \<in> set ?es" by simp
    then show "\<exists>e \<in> set ?es. fst e = name" by force
  qed
  show ?thesis
  proof (cases "?es = []")
    case True
    with in_es have "\<not> suite_total c > 0" by auto
    with True ne show ?thesis
      by (simp add: newCalls_onTestSuiteFinish suiteCompletedLine_other suiteCompletedLine_other_Cons)
  next
    case False
    have "CallInfo (suiteCompletedLine name) MetaUndefined \<in>
        set (newCalls (onTestSuiteFinish now) L) \<longleftrightarrow> (\<exists>e \<in> set ?es. fst e = name)"
      using False ne
      by (simp add: newCalls_onTestSuiteFinish suiteCompletedLine_other suiteCompletedLine_other_Cons
          suiteCompletedLine_singleLine completed_in_block)
    with in_es show ?thesis by simp
  qed
qed

section \<open>Claims about the summary of suites\<close>

text \<open>
  C8. The calls that \<open>onTestSuiteFinish\<close> makes on the logger are, after the two header
  lines, one block for each suite whose total is above 0, in the order of the map, and
  no block for any other suite. The block of a suite is the line naming the suite, the
  line of its totals, the line for failed tests if and only if the failed count of the
  suite is above 0, and an empty line. With the names of suites distinct, as the keys
  of a map are, the line naming a suite is among the calls if and only if the total of
  that suite is above 0.

  The line for failed tests notes the count: its text is the cross mark,
  \<open>Suite had\<close>, the decimal numeral of the count and \<open>failed test(s)\<close>; the numeral reads
  back as the count, and lines for different counts differ. Such a line with count
  \<open>k\<close> is in the block of a suite exactly when the failed count of the suite is \<open>k\<close>
  and above 0, and in the summary exactly when some suite with a total above 0 has the
  failed count \<open>k\<close> above 0; it carries the metadata \<open>warn\<close>. It is an \<open>info\<close> call: when
  the level INFO passes and the line fits the maximum line length, the console
  receives it unchanged inside the formatted entry (\<open>replay_console\<close> and
  \<open>replay_filtered\<close> above: every call of the summary is one console line when INFO
  passes and none otherwise).
\<close>

theorem suite_summary:
  "newCalls (onTestSuiteFinish now) L =
     (if suiteContext L = []
      then [CallInfo ([0xD83D, 0xDCCB] @ js '' No test suites found'') MetaUndefined]
      else if filter (\<lambda>e. suite_total (snd e) > 0) (suiteContext L) = []
      then [CallInfo ([0xD83D, 0xDCCB] @ js '' No suites with tests found'') MetaUndefined]
      else [CallInfo ([0xD83D, 0xDCCB] @ js '' Test Suite Summary:'') MetaUndefined,
            CallInfo singleLine MetaUndefined] @
           concat (map (\<lambda>e. newCalls (suiteSummary now e) L)
             (filter (\<lambda>e. suite_total (snd e) > 0) (suiteContext L)))) \<and>
   (\<forall>e. newCalls (suiteSummary now e) L =
      [CallInfo (suiteCompletedLine (fst e)) MetaUndefined,
       CallInfo (suiteTotalsLine (snd e) (now - suite_startTime (snd e))) MetaUndefined] @
      (if suite_failed (snd e) > 0
       then [CallInfo (suiteFailedLine (suite_failed (snd e))) (MetaString (js ''warn''))]
       else []) @
      [CallInfo [] MetaUndefined]) \<and>
   (\<forall>e. (\<exists>m. CallInfo m (MetaString (js ''warn'')) \<in> set (newCalls (suiteSummary now e) L)) \<longleftrightarrow>
      suite_failed (snd e) > 0) \<and>
   (distinct (map fst (suiteContext L)) \<longrightarrow>
      (\<forall>(name, context) \<in> set (suiteContext L).
         CallInfo (suiteCompletedLine name) MetaUndefined \<in> set (newCalls (onTestSuiteFinish now) L)
           \<longleftrightarrow> suite_total context > 0)) \<and>
   suiteFailedLine k = [0x274C] @ js '' Suite had '' @ showNat k @ js '' failed test(s)'' \<and>
   readNat (showNat k) = k \<and>
   (\<forall>j. suiteFailedLine j = suiteFailedLine k \<longleftrightarrow> j = k) \<and>
   (\<forall>e md. CallInfo (suiteFailedLine k) md \<in> set (newCalls (suiteSummary now e) L) \<longleftrightarrow>
      0 < suite_failed (snd e) \<and> k = suite_failed (snd e) \<and> md = MetaString (js ''warn'')) \<and>
   (\<forall>md. CallInfo (suiteFailedLine k) md \<in> set (newCalls (onTestSuiteFinish now) L) \<longleftrightarrow>
      (\<exists>e \<in> set (suiteContext L).
         0 < suite_total (snd e) \<and> suite_failed (snd e) = k \<and> 0 < k \<and>
         md = MetaString (js ''warn''))) \<and>
   (passesLevel (globalConfig st) INFO \<and>
    int (length (suiteFailedLine k)) \<le> cfg_maxLineLength (globalConfig st) \<longrightarrow>
      console (runCall toISO t (CallInfo (suiteFailedLine k) (MetaString (js ''warn''))) st) =
        console st @ [formatMessage toISO (globalConfig st)
          \<lparr>entry_timestamp = t, entry_level = INFO, entry_message = suiteFailedLine k,
           entry_context = js ''PlaywrightTestListener'',
           entry_metadata = MetaString (js ''warn'')\<rparr>])"
proof -
  have names: "distinct (map fst (suiteContext L)) \<longrightarrow>
      (\<forall>(name, c) \<in> set (suiteContext L).
         CallInfo (suiteCompletedLine name) MetaUndefined \<in> set (newCalls (onTestSuiteFinish now) L)
           \<longleftrightarrow> suite_total c > 0)"
    using completed_in_summary [of L _ _ now] by blast
  have wording: "suiteFailedLine k = [0x274C] @ js '' Suite had '' @ showNat k @ js '' failed test(s)''"
    by (simp add: suiteFailedLine_def)
  have inj: "\<forall>j. suiteFailedLine j = suiteFailedLine k \<longleftrightarrow> j = k"
    by (simp add: suiteFailedLine_inject)
  have block: "\<forall>e md. CallInfo (suiteFailedLine k) md \<in> set (newCalls (suiteSummary now e) L) \<longleftrightarrow>
      0 < suite_failed (snd e) \<and> k = suite_failed (snd e) \<and> md = MetaString (js ''warn'')"
    by (simp only: failed_in_block) simp
  have summary: "\<forall>md. CallInfo (suiteFailedLine k) md \<in> set (newCalls (onTestSuiteFinish now) L) \<longleftrightarrow>
      (\<exists>e \<in> set (suiteContext L).
         0 < suite_total (snd e) \<and> suite_failed (snd e) = k \<and> 0 < k \<and>
         md = MetaString (js ''warn''))"
    by (simp only: failed_in_summary) simp
  have con: "passesLevel (globalConfig st) INFO \<and>
    int (length (suiteFailedLine k)) \<le> cfg_maxLineLength (globalConfig st) \<longrightarrow>
      console (runCall toISO t (CallInfo (suiteFailedLine k) (MetaString (js ''warn''))) st) =
        console st @ [formatMessage toISO (globalConfig st)
          \<lparr>entry_timestamp = t, entry_level = INFO, entry_message = suiteFailedLine k,
           entry_context = js ''PlaywrightTestListener'',
           entry_metadata = MetaString (js ''warn'')\<rparr>]"
    using failed_line_console [of st k toISO t] by blast
  have warn: "\<forall>e. (\<exists>m. CallInfo m (MetaString (js ''warn'')) \<in> set (newCalls (suiteSummary now e) L))
      \<longleftrightarrow> suite_failed (snd e) > 0"
    by (simp only: warning_in_block) simp
  have blocks: "\<forall>e. newCalls (suiteSummary now e) L =
      [CallInfo (suiteCompletedLine (fst e)) MetaUndefined,
       CallInfo (suiteTotalsLine (snd e) (now - suite_startTime (snd e))) MetaUndefined] @
      (if suite_failed (snd e) > 0
       then [CallInfo (suiteFailedLine (suite_failed (snd e))) (MetaString (js ''warn''))]
       else []) @
      [CallInfo [] MetaUndefined]"
    by (simp only: newCalls_suiteSummary) simp
  show ?thesis
    by (intro conjI newCalls_onTestSuiteFinish blocks warn names wording readNat_showNat inj block
        summary con)
qed

text \<open>
  C8, witness: in the example run the summary names \<open>Login\<close> and \<open>Broken\<close>, which have
  one test each, and not \<open>Empty\<close>, which has none. The line \<open>Suite had 1 failed test(s)\<close>
  is in the summary and in the block of \<open>Broken\<close>, not in the block of \<open>Login\<close>; no line
  for 2 failed tests is in the summary; on the initial logger the line reaches the
  console.
\<close>

theorem suite_summary_witness:
  "distinct (map fst (suiteContext exampleRun)) \<and>
   map (\<lambda>e. (fst e, counters (snd e))) (suiteContext exampleRun) =
     [(js ''Login'', (1, 1, 0, 0)), (js ''Empty'', (0, 0, 0, 0)), (js ''Broken'', (1, 0, 1, 0))] \<and>
   CallInfo (suiteCompletedLine (js ''Login'')) MetaUndefined
     \<in> set (newCalls (onTestSuiteFinish 10) exampleRun) \<and>
   CallInfo (suiteCompletedLine (js ''Empty'')) MetaUndefined
     \<notin> set (newCalls (onTestSuiteFinish 10) exampleRun) \<and>
   CallInfo (suiteCompletedLine (js ''Broken'')) MetaUndefined
     \<in> set (newCalls (onTestSuiteFinish 10) exampleRun) \<and>
   (\<exists>m. CallInfo m (MetaString (js ''warn''))
      \<in> set (newCalls (suiteSummary 10 (suiteContext exampleRun ! 2)) exampleRun)) \<and>
   \<not> (\<exists>m. CallInfo m (MetaString (js ''warn''))
      \<in> set (newCalls (suiteSummary 10 (suiteContext exampleRun ! 0)) exampleRun)) \<and>
   suiteFailedLine 1 = [0x274C] @ js '' Suite had 1 failed test(s)'' \<and>
   CallInfo (suiteFailedLine 1) (MetaString (js ''warn''))
     \<in> set (newCalls (onTestSuiteFinish 10) exampleRun) \<and>
   CallInfo (suiteFailedLine 1) (MetaString (js ''warn''))
     \<in> set (newCalls (suiteSummary 10 (suiteContext exampleRun ! 2)) exampleRun) \<and>
   CallInfo (suiteFailedLine 1) (MetaString (js ''warn''))
     \<notin> set (newCalls (suiteSummary 10 (suiteContext exampleRun ! 0)) exampleRun) \<and>
   CallInfo (suiteFailedLine 2) (MetaString (js ''warn''))
     \<notin> set (newCalls (onTestSuiteFinish 10) exampleRun) \<and>
   passesLevel (globalConfig initialLogger) INFO \<and>
   int (length (suiteFailedLine 1)) \<le> cfg_maxLineLength (globalConfig initialLogger) \<and>
   console (runCall showInt 10 (CallInfo (suiteFailedLine 1) (MetaString (js ''warn'')))
     initialLogger) =
     [js ''[10] '' @ [0x1B] @ js ''[32m'' @ [0x2139, 0xFE0F] @ js ''[PlaywrightTestListener] ''
        @ [0x274C] @ js '' Suite had 1 failed test(s)'' @ [0x1B] @ js ''[0m'']"
proof -
  define login where "login =
    \<lparr>suite_suiteName = js ''Login'', suite_startTime = 0, suite_endTime = None,
     suite_duration = None, suite_tests = [], suite_passed = 1, suite_failed = 0,
     suite_skipped = 0, suite_total = 1\<rparr>"
  define empty where "empty =
    \<lparr>suite_suiteName = js ''Empty'', suite_startTime = 0, suite_endTime = None,
     suite_duration = None, suite_tests = [], suite_passed = 0, suite_failed = 0,
     suite_skipped = 0, suite_total = 0\<rparr>"
  define broken where "broken =
    \<lparr>suite_suiteName = js ''Broken'', suite_startTime = 0, suite_endTime = None,
     suite_duration = None, suite_tests = [], suite_passed = 0, suite_failed = 1,
     suite_skipped = 0, suite_total = 1\<rparr>"
  have sc: "suiteContext exampleRun =
      [(js ''Login'', login), (js ''Empty'', empty), (js ''Broken'', broken)]"
    by (simp add: exampleRun_def exampleTest_def onTestEnd_suiteContext onTestBegin_suiteContext
        onTestFinish_def onTestSuiteStart_def freshListener_def Let_def js_def
        login_def empty_def broken_def)
  have d: "distinct (map fst (suiteContext exampleRun))" by (simp add: sc js_def)
  have c: "map (\<lambda>e. (fst e, counters (snd e))) (suiteContext exampleRun) =
     [(js ''Login'', (1, 1, 0, 0)), (js ''Empty'', (0, 0, 0, 0)), (js ''Broken'', (1, 0, 1, 0))]"
    by (simp add: sc counters_def login_def empty_def broken_def)
  have one: "showNat 1 = js ''1''" by code_simp
  have ten: "showInt 10 = js ''10''" by code_simp
  note th = suite_summary [where now = 10 and L = exampleRun and k = 1 and st = initialLogger
      and toISO = showInt and t = 10]
  note th2 = suite_summary [where now = 10 and L = exampleRun and k = 2 and st = initialLogger
      and toISO = showInt and t = 10]
  note rest = th [THEN conjunct2, THEN conjunct2, THEN conjunct2, THEN conjunct2]
  have all: "\<forall>(name, c) \<in> set (suiteContext exampleRun).
      CallInfo (suiteCompletedLine name) MetaUndefined
        \<in> set (newCalls (onTestSuiteFinish 10) exampleRun) \<longleftrightarrow> suite_total c > 0"
    using th [THEN conjunct2, THEN conjunct2, THEN conjunct2, THEN conjunct1] d by (rule mp)
  have l: "CallInfo (suiteCompletedLine (js ''Login'')) MetaUndefined
      \<in> set (newCalls (onTestSuiteFinish 10) exampleRun)"
    using all by (simp add: sc login_def)
  have e: "CallInfo (suiteCompletedLine (js ''Empty'')) MetaUndefined
      \<notin> set (newCalls (onTestSuiteFinish 10) exampleRun)"
    using all by (simp add: sc empty_def)
  have b: "CallInfo (suiteCompletedLine (js ''Broken'')) MetaUndefined
      \<in> set (newCalls (onTestSuiteFinish 10) exampleRun)"
    using all by (simp add: sc broken_def)
  have w: "(\<exists>m. CallInfo m (MetaString (js ''warn''))
        \<in> set (newCalls (suiteSummary 10 e) exampleRun)) \<longleftrightarrow> suite_failed (snd e) > 0" for e
    using th [THEN conjunct2, THEN conjunct2, THEN conjunct1] by (rule spec)
  have w2: "\<exists>m. CallInfo m (MetaString (js ''warn''))
      \<in> set (newCalls (suiteSummary 10 (suiteContext exampleRun ! 2)) exampleRun)"
    unfolding w by (simp add: sc broken_def)
  have w0: "\<not> (\<exists>m. CallInfo m (MetaString (js ''warn''))
      \<in> set (newCalls (suiteSummary 10 (suiteContext exampleRun ! 0)) exampleRun))"
    unfolding w by (simp add: sc login_def)
  have line: "suiteFailedLine 1 = [0x274C] @ js '' Suite had 1 failed test(s)''"
    using rest [THEN conjunct1] unfolding one by (simp add: js_def)
  have blk: "CallInfo (suiteFailedLine 1) md \<in> set (newCalls (suiteSummary 10 e) exampleRun) \<longleftrightarrow>
      0 < suite_failed (snd e) \<and> 1 = suite_failed (snd e) \<and> md = MetaString (js ''warn'')"
    for e md
    using rest [THEN conjunct2, THEN conjunct2, THEN conjunct2, THEN conjunct1] by blast
  have f2: "CallInfo (suiteFailedLine 1) (MetaString (js ''warn''))
      \<in> set (newCalls (suiteSummary 10 (suiteContext exampleRun ! 2)) exampleRun)"
    unfolding blk by (simp add: sc broken_def)
  have f0: "CallInfo (suiteFailedLine 1) (MetaString (js ''warn''))
      \<notin> set (newCalls (suiteSummary 10 (suiteContext exampleRun ! 0)) exampleRun)"
    unfolding blk by (simp add: sc login_def)
  have sm: "CallInfo (suiteFailedLine k) md \<in> set (newCalls (onTestSuiteFinish 10) exampleRun) \<longleftrightarrow>
      (\<exists>e \<in> set (suiteContext exampleRun).
         0 < suite_total (snd e) \<and> suite_failed (snd e) = k \<and> 0 < k \<and>
         md = MetaString (js ''warn''))" for k md
    using suite_summary [where now = 10 and L = exampleRun and k = k and st = initialLogger
        and toISO = showInt and t = 10, THEN conjunct2, THEN conjunct2, THEN conjunct2,
        THEN conjunct2, THEN conjunct2, THEN conjunct2, THEN conjunct2, THEN conjunct2,
        THEN conjunct1] by blast
  have s1: "CallInfo (suiteFailedLine 1) (MetaString (js ''warn''))
      \<in> set (newCalls (onTestSuiteFinish 10) exampleRun)"
    unfolding sm by (simp add: sc login_def empty_def broken_def)
  have s2: "CallInfo (suiteFailedLine 2) (MetaString (js ''warn''))
      \<notin> set (newCalls (onTestSuiteFinish 10) exampleRun)"
    unfolding sm by (simp add: sc login_def empty_def broken_def)
  have pl: "passesLevel (globalConfig initialLogger) INFO"
    by (simp add: passesLevel_def initialLogger_def defaultConfig_def)
  have len: "int (length (suiteFailedLine 1)) \<le> cfg_maxLineLength (globalConfig initialLogger)"
    unfolding line by (simp add: initialLogger_def defaultConfig_def js_def)
  have "console (runCall showInt 10 (CallInfo (suiteFailedLine 1) (MetaString (js ''warn'')))
      initialLogger) =
      console initialLogger @ [formatMessage showInt (globalConfig initialLogger)
        \<lparr>entry_timestamp = 10, entry_level = INFO, entry_message = suiteFailedLine 1,
         entry_context = js ''PlaywrightTestListener'',
         entry_metadata = MetaString (js ''warn'')\<rparr>]"
    using rest [THEN conjunct2, THEN conjunct2, THEN conjunct2, THEN conjunct2, THEN conjunct2]
      pl len by blast
  also have "\<dots> =
      [js ''[10] '' @ [0x1B] @ js ''[32m'' @ [0x2139, 0xFE0F] @ js ''[PlaywrightTestListener] ''
         @ [0x274C] @ js '' Suite had 1 failed test(s)'' @ [0x1B] @ js ''[0m'']"
    unfolding line
    by (simp add: initialLogger_def defaultConfig_def formatMessage_def getColorCode_def
        getResetCode_def ten js_def)
  finally have con: "console (runCall showInt 10
      (CallInfo (suiteFailedLine 1) (MetaString (js ''warn''))) initialLogger) =
      [js ''[10] '' @ [0x1B] @ js ''[32m'' @ [0x2139, 0xFE0F] @ js ''[PlaywrightTestListener] ''
         @ [0x274C] @ js '' Suite had 1 failed test(s)'' @ [0x1B] @ js ''[0m'']" .
  show ?thesis
    using d c l e b w2 w0 line s1 f2 f0 s2 pl len con by (intro conjI)
qed

end
